theory Spec2Isabelle
  imports Complex_Main
begin

section \<open>Automated report generation: the data model\<close>

text \<open>
  The program (REPORT\_GEN.py) is one class, \<open>AutomatedReportGenerator\<close>, whose methods
  load a table, analyse it, draw charts into temporary files and lay out a PDF. The table
  is a pandas DataFrame: named, typed columns of equal length whose cells may be null.
  Cell values are kept polymorphic (\<open>'v\<close>); the program only compares them for
  equality (counting distinct values) and tests them for null.
\<close>

datatype dtype = Int64 | Float64 | Bool | Datetime64 | Object

record 'v column =
  col_name :: string
  col_dtype :: dtype
  col_cells :: "'v option list"

record 'v dataframe =
  df_len :: nat
  df_columns :: "'v column list"

text \<open>The shape invariant of a DataFrame: every column has one cell per row, and column
  labels are distinct (as the readers \<open>read_csv\<close>, \<open>read_excel\<close> and a JSON object
  produce them).\<close>

definition wf_dataframe :: "'v dataframe \<Rightarrow> bool" where
  "wf_dataframe df \<longleftrightarrow>
     list_all (\<lambda>c. length (col_cells c) = df_len df) (df_columns df)
     \<and> distinct (map col_name (df_columns df))"

text \<open>\<open>select_dtypes(include=[np.number])\<close> keeps the integer and floating columns;
  \<open>select_dtypes(include=['object'])\<close> keeps the object columns.\<close>

definition is_number :: "dtype \<Rightarrow> bool" where
  "is_number t \<longleftrightarrow> t = Int64 \<or> t = Float64"

definition select_number :: "'v dataframe \<Rightarrow> 'v column list" where
  "select_number df = filter (\<lambda>c. is_number (col_dtype c)) (df_columns df)"

definition select_object :: "'v dataframe \<Rightarrow> 'v column list" where
  "select_object df = filter (\<lambda>c. col_dtype c = Object) (df_columns df)"

subsection \<open>The pandas operations the analysis calls\<close>

text \<open>\<open>df.isnull().sum()\<close> is the per-column count of null cells, and a second
  \<open>.sum()\<close> adds the column counts up.\<close>

definition isnull_sum :: "'v column \<Rightarrow> nat" where
  "isnull_sum c = length (filter (\<lambda>x. x = None) (col_cells c))"

definition isnull_sum_sum :: "'v dataframe \<Rightarrow> nat" where
  "isnull_sum_sum df = sum_list (map isnull_sum (df_columns df))"

text \<open>\<open>Series.value_counts()\<close> drops the nulls, counts each distinct value and orders
  the pairs by count, largest first (ties in order of first occurrence); \<open>nunique()\<close> is
  the number of distinct non-null values; \<open>head(n)\<close> keeps the first \<open>n\<close> entries.\<close>

definition dropna :: "'v option list \<Rightarrow> 'v list" where
  "dropna xs = concat (map (\<lambda>x. case x of None \<Rightarrow> [] | Some v \<Rightarrow> [v]) xs)"

definition unique :: "'a list \<Rightarrow> 'a list" where
  "unique vs = rev (remdups (rev vs))"

definition nunique :: "'v column \<Rightarrow> nat" where
  "nunique c = length (unique (dropna (col_cells c)))"

definition value_counts_of :: "'a list \<Rightarrow> ('a \<times> nat) list" where
  "value_counts_of vs =
     sort_key (\<lambda>p. - int (snd p)) (map (\<lambda>v. (v, count_list vs v)) (unique vs))"

definition value_counts :: "'v column \<Rightarrow> ('v \<times> nat) list" where
  "value_counts c = value_counts_of (dropna (col_cells c))"

definition head :: "nat \<Rightarrow> 'a list \<Rightarrow> 'a list" where
  "head n xs = take n xs"

subsection \<open>Strings\<close>

text \<open>Python's \<open>str.split(sep)\<close> (every occurrence splits, empty pieces are kept, the
  result is never empty), \<open>str.lower()\<close> and \<open>str.upper()\<close> on the ASCII letters,
  \<open>str.strip()\<close>, \<open>str(n)\<close> for a natural number, \<open>str.replace\<close> and
  \<open>str.title()\<close>.\<close>

fun split :: "char \<Rightarrow> string \<Rightarrow> string list" where
  "split sep [] = [[]]"
| "split sep (c # cs) =
     (if c = sep then [] # split sep cs
      else (case split sep cs of [] \<Rightarrow> [[c]] | w # ws \<Rightarrow> (c # w) # ws))"

definition is_upper :: "char \<Rightarrow> bool" where
  "is_upper c \<longleftrightarrow> 65 \<le> (of_char c :: nat) \<and> (of_char c :: nat) \<le> 90"

definition is_lower :: "char \<Rightarrow> bool" where
  "is_lower c \<longleftrightarrow> 97 \<le> (of_char c :: nat) \<and> (of_char c :: nat) \<le> 122"

definition lower_char :: "char \<Rightarrow> char" where
  "lower_char c = (if is_upper c then char_of ((of_char c :: nat) + 32) else c)"

definition upper_char :: "char \<Rightarrow> char" where
  "upper_char c = (if is_lower c then char_of ((of_char c :: nat) - 32) else c)"

definition lower :: "string \<Rightarrow> string" where
  "lower s = map lower_char s"

definition is_space :: "char \<Rightarrow> bool" where
  "is_space c \<longleftrightarrow> (of_char c :: nat) = 32 \<or> (9 \<le> (of_char c :: nat) \<and> (of_char c :: nat) \<le> 13)"

definition strip :: "string \<Rightarrow> string" where
  "strip s = rev (dropWhile is_space (rev (dropWhile is_space s)))"

function str_nat :: "nat \<Rightarrow> string" where
  "str_nat n =
     (if n < 10 then [char_of (48 + n)]
      else str_nat (n div 10) @ [char_of (48 + n mod 10)])"
  by pat_completeness auto
termination
  by (relation "measure id") auto

declare str_nat.simps [simp del]

fun strip_prefix :: "string \<Rightarrow> string \<Rightarrow> string option" where
  "strip_prefix [] s = Some s"
| "strip_prefix (p # ps) [] = None"
| "strip_prefix (p # ps) (c # cs) = (if p = c then strip_prefix ps cs else None)"

text \<open>\<open>s.replace(old, new)\<close> for a non-empty \<open>old\<close> (the program replaces
  \<open>'.png'\<close> and \<open>'_'\<close>): scanning from the left, each occurrence is replaced and the
  scan goes on after it. The counter bounds the scan by the length of the string.\<close>

fun replace_from :: "nat \<Rightarrow> string \<Rightarrow> string \<Rightarrow> string \<Rightarrow> string" where
  "replace_from 0 old new s = s"
| "replace_from (Suc k) old new [] = []"
| "replace_from (Suc k) old new (c # cs) =
     (case strip_prefix old (c # cs) of
        Some rest \<Rightarrow> new @ replace_from k old new rest
      | None \<Rightarrow> c # replace_from k old new cs)"

definition replace :: "string \<Rightarrow> string \<Rightarrow> string \<Rightarrow> string" where
  "replace old new s = (if old = [] then s else replace_from (length s) old new s)"

text \<open>\<open>str.title()\<close>: the first letter of every run of letters in upper case, the
  others in lower case.\<close>

fun title_from :: "bool \<Rightarrow> string \<Rightarrow> string" where
  "title_from prev [] = []"
| "title_from prev (c # cs) =
     (if is_upper c \<or> is_lower c
      then (if prev then lower_char c else upper_char c) # title_from True cs
      else c # title_from False cs)"

definition title :: "string \<Rightarrow> string" where
  "title s = title_from False s"

definition basename :: "string \<Rightarrow> string" where
  "basename path = last (split (CHR ''/'') path)"

section \<open>The generator and its surroundings\<close>

text \<open>Exceptions are values. \<open>ValueError\<close> is the one the program raises itself (an
  unsupported file type, with its message); the others stand for any exception a library
  call raises: the readers (pandas, json, open), the drawing calls (matplotlib, seaborn,
  pandas plotting) and the document writer (\<open>FPDF.output\<close>).\<close>

datatype error =
    ValueError string
  | ReadError string
  | RenderError
  | WriteError

fun error_str :: "error \<Rightarrow> string" where
  "error_str (ValueError m) = m"
| "error_str (ReadError m) = m"
| "error_str RenderError = ''render failed''"
| "error_str WriteError = ''write failed''"

subsection \<open>The PDF document (FPDF)\<close>

text \<open>An FPDF document is a sequence of pages and a cursor. Lengths are millimetres
  (the default unit), as rationals. The page is A4 portrait (841.89 pt high at 72/25.4
  points a millimetre), the top margin is FPDF's default of 28.35 pt, and
  \<open>set_auto_page_break(auto=True, margin=15)\<close> puts the page-break trigger 15 mm above
  the bottom edge.\<close>

datatype block = Cell rat string | Ln rat | Image string

record pdf =
  pages :: "block list list"
  y :: rat

definition t_margin :: rat where
  "t_margin = 2835 / 100 * (254 / 720)"

definition page_break_trigger :: rat where
  "page_break_trigger = 84189 / 100 * (254 / 720) - 15"

definition FPDF :: pdf where
  "FPDF = \<lparr>pages = [], y = 0\<rparr>"

definition add_page :: "pdf \<Rightarrow> pdf" where
  "add_page p = p\<lparr>pages := pages p @ [[]], y := t_margin\<rparr>"

text \<open>Output goes to the last page. (FPDF refuses to write before the first
  \<open>add_page\<close>; the program opens a page before anything else, and the model leaves a
  document without pages as it is.)\<close>

definition put :: "block \<Rightarrow> pdf \<Rightarrow> pdf" where
  "put b p =
     (if pages p = [] then p
      else p\<lparr>pages := butlast (pages p) @ [last (pages p) @ [b]]\<rparr>)"

text \<open>\<open>cell(0, h, txt, 0, 1, align)\<close>: a cell that would cross the trigger first breaks
  the page; with \<open>ln=1\<close> the cursor then moves below the cell. \<open>ln(h)\<close> moves the
  cursor down. \<open>image(path, x, y, w)\<close> with an explicit \<open>y\<close> places the image and
  leaves the cursor where it is.\<close>

definition cell :: "rat \<Rightarrow> string \<Rightarrow> pdf \<Rightarrow> pdf" where
  "cell h txt p =
     (let p1 = (if y p + h > page_break_trigger then add_page p else p)
      in (put (Cell h txt) p1)\<lparr>y := y p1 + h\<rparr>)"

definition ln_pdf :: "rat \<Rightarrow> pdf \<Rightarrow> pdf" where
  "ln_pdf h p = (put (Ln h) p)\<lparr>y := y p + h\<rparr>"

definition image_pdf :: "string \<Rightarrow> pdf \<Rightarrow> pdf" where
  "image_pdf path p = put (Image path) p"

subsection \<open>The generator's state\<close>

text \<open>The analysis results: a dictionary with four optional keys. The numeric summary
  (\<open>describe()\<close>) and the correlations (\<open>corr()\<close>) are DataFrames of floating-point
  numbers computed inside pandas; the model keeps their labels (the summarised columns
  and the index of statistics), which is all the layout of the report reads.\<close>

record basic_stats =
  total_rows :: nat
  total_columns :: nat
  missing_values :: nat
  data_types :: "string \<rightharpoonup> dtype"

record numeric_summary =
  ns_columns :: "string list"
  ns_index :: "string list"

record 'v categorical_entry =
  unique_values :: nat
  top_values :: "('v \<times> nat) list"

record 'v analysis_results =
  ar_basic_stats :: "basic_stats option"
  ar_numeric_summary :: "numeric_summary option"
  ar_correlations :: "string list option"
  ar_categorical_summary :: "(string \<rightharpoonup> 'v categorical_entry) option"

text \<open>The state the methods read and change: the two attributes of the generator
  (\<open>self.data\<close>, \<open>self.analysis_results\<close>), the file system (a chart image or a
  written document at a path) and what was printed.\<close>

datatype file_content = Png_file | Pdf_file pdf

record 'v state =
  data :: "'v dataframe option"
  analysis_results :: "'v analysis_results"
  files :: "string \<rightharpoonup> file_content"
  stdout :: "string list"

definition print :: "string \<Rightarrow> 'v state \<Rightarrow> 'v state" where
  "print line s = s\<lparr>stdout := stdout s @ [line]\<rparr>"

definition path_exists :: "'v state \<Rightarrow> string \<Rightarrow> bool" where
  "path_exists s path \<longleftrightarrow> files s path \<noteq> None"

definition os_remove :: "string \<Rightarrow> 'v state \<Rightarrow> 'v state" where
  "os_remove path s = s\<lparr>files := (files s)(path := None)\<rparr>"

text \<open>\<open>__init__\<close>: no data, no results. (It also creates the directory
  \<open>temp_charts/\<close> when it is missing; directories are not part of the model.)\<close>

definition init :: "(string \<rightharpoonup> file_content) \<Rightarrow> 'v state" where
  "init fs = \<lparr>data = None,
     analysis_results = \<lparr>ar_basic_stats = None, ar_numeric_summary = None,
       ar_correlations = None, ar_categorical_summary = None\<rparr>,
     files = fs, stdout = []\<rparr>"

definition charts_path :: string where
  "charts_path = ''temp_charts/''"

subsection \<open>The library calls that can fail\<close>

text \<open>The drawing calls of \<open>generate_charts\<close>, each with the data it is given. Whether
  a call returns or raises is the backend's business: the environment decides it.\<close>

datatype 'v draw_call =
    Style_use string
  | Subplots nat nat
  | Heatmap_isnull "bool list list"
  | Text_panel string
  | Pie "(dtype \<times> nat) list"
  | Hist "'v column list"
  | Table "'v option list list" "string list"
  | Savefig string
  | Figure
  | Heatmap_corr "'v column list"
  | Bar string "('v \<times> nat) list"

text \<open>The environment: the three readers (a table or the exception raised), the drawing
  backend, image embedding and document writing (returns or raises), the clock, and the
  two floating-point formatters the program leaves to the libraries (\<open>round(2)\<close> on a
  cell, and the \<open>.2f\<close> text of an entry of the numeric summary).\<close>

record 'v env =
  read_csv :: "string \<Rightarrow> error + 'v dataframe"
  read_excel :: "string \<Rightarrow> error + 'v dataframe"
  read_json :: "string \<Rightarrow> error + 'v dataframe"
  draw :: "'v draw_call \<Rightarrow> bool"
  image_ok :: "string \<Rightarrow> bool"
  output_ok :: "string \<Rightarrow> bool"
  now :: string
  round2 :: "'v \<Rightarrow> 'v"
  fmt_stat :: "string \<Rightarrow> string \<Rightarrow> string"

section \<open>The methods\<close>

subsection \<open>load\_data\<close>

text \<open>The whole body is inside \<open>try ... except Exception\<close>: a reader's exception and
  the program's own \<open>ValueError\<close> both end in the handler, which prints the message and
  returns \<open>False\<close>. \<open>self.data\<close> is assigned only once a reader has returned.\<close>

definition resolve_type :: "string \<Rightarrow> string \<Rightarrow> string" where
  "resolve_type file_path file_type =
     (if file_type = ''auto'' then lower (last (split (CHR ''.'') file_path)) else file_type)"

definition read_table :: "'v env \<Rightarrow> string \<Rightarrow> string \<Rightarrow> error + 'v dataframe" where
  "read_table env file_path file_type =
     (if file_type \<in> set [''csv''] then read_csv env file_path
      else if file_type \<in> set [''xlsx'', ''xls''] then read_excel env file_path
      else if file_type = ''json'' then read_json env file_path
      else Inl (ValueError (''Unsupported file type: '' @ file_type)))"

definition load_data ::
  "'v env \<Rightarrow> string \<Rightarrow> string \<Rightarrow> 'v state \<Rightarrow> (error + bool) \<times> 'v state" where
  "load_data env file_path file_type s =
     (case read_table env file_path (resolve_type file_path file_type) of
        Inr df \<Rightarrow>
          (Inr True,
           print (''Data loaded successfully: '' @ str_nat (df_len df) @ '' rows, ''
                    @ str_nat (length (df_columns df)) @ '' columns'')
             (s\<lparr>data := Some df\<rparr>))
      | Inl e \<Rightarrow> (Inr False, print (''Error loading data: '' @ error_str e) s))"

subsection \<open>analyze\_data\<close>

definition describe :: "'v column list \<Rightarrow> numeric_summary" where
  "describe cols = \<lparr>ns_columns = map col_name cols,
     ns_index = [''count'', ''mean'', ''std'', ''min'', ''25%'', ''50%'', ''75%'', ''max'']\<rparr>"

definition corr :: "'v column list \<Rightarrow> string list" where
  "corr cols = map col_name cols"

definition categorical_entry_of :: "'v column \<Rightarrow> 'v categorical_entry" where
  "categorical_entry_of c =
     \<lparr>unique_values = nunique c, top_values = head 5 (value_counts c)\<rparr>"

definition analyze_data :: "'v state \<Rightarrow> (error + bool) \<times> 'v state" where
  "analyze_data s =
     (case data s of
        None \<Rightarrow> (Inr False, print ''No data loaded for analysis'' s)
      | Some df \<Rightarrow>
          (let r1 = (analysis_results s)\<lparr>ar_basic_stats := Some
                 \<lparr>total_rows = df_len df,
                  total_columns = length (df_columns df),
                  missing_values = isnull_sum_sum df,
                  data_types = map_of (map (\<lambda>c. (col_name c, col_dtype c)) (df_columns df))\<rparr>\<rparr>;
               numeric_columns = select_number df;
               r2 = (if length numeric_columns > 0
                     then r1\<lparr>ar_numeric_summary := Some (describe numeric_columns),
                             ar_correlations := Some (corr numeric_columns)\<rparr>
                     else r1);
               categorical_columns = select_object df;
               r3 = (if length categorical_columns > 0
                     then r2\<lparr>ar_categorical_summary := Some
                            (foldl (\<lambda>m col. m(col_name col \<mapsto> categorical_entry_of col))
                               Map.empty categorical_columns)\<rparr>
                     else r2)
           in (Inr True, s\<lparr>analysis_results := r3\<rparr>)))"

subsection \<open>generate\_charts\<close>

text \<open>A cell read by position; a DataFrame has a cell in every row of every column.\<close>

definition cell_at :: "'v column \<Rightarrow> nat \<Rightarrow> 'v option" where
  "cell_at c i = (if i < length (col_cells c) then col_cells c ! i else None)"

definition rows :: "'v dataframe \<Rightarrow> 'v option list list" where
  "rows df = map (\<lambda>i. map (\<lambda>c. cell_at c i) (df_columns df)) [0..<df_len df]"

text \<open>\<open>self.data.head(5).round(2) if len(self.data) > 0 else pd.DataFrame()\<close>: the
  values and the column labels handed to \<open>axes.table\<close>. \<open>round(2)\<close> touches the
  numeric columns only.\<close>

definition round_column :: "'v env \<Rightarrow> 'v column \<Rightarrow> 'v column" where
  "round_column env c =
     (if is_number (col_dtype c)
      then c\<lparr>col_cells := map (map_option (round2 env)) (col_cells c)\<rparr> else c)"

definition table_data :: "'v env \<Rightarrow> 'v dataframe \<Rightarrow> 'v dataframe" where
  "table_data env df =
     (if df_len df > 0
      then \<lparr>df_len = min 5 (df_len df),
            df_columns = map (\<lambda>c. round_column env (c\<lparr>col_cells := head 5 (col_cells c)\<rparr>))
                           (df_columns df)\<rparr>
      else \<lparr>df_len = 0, df_columns = []\<rparr>)"

definition overview_calls :: "'v env \<Rightarrow> 'v dataframe \<Rightarrow> 'v draw_call list" where
  "overview_calls env df =
     [Subplots 2 2]
     @ [if isnull_sum_sum df > 0
        then Heatmap_isnull (map (\<lambda>c. map (\<lambda>x. x = None) (col_cells c)) (df_columns df))
        else Text_panel ''No Missing Values'']
     @ [Pie (value_counts_of (map col_dtype (df_columns df)))]
     @ (if length (select_number df) > 0 then [Hist (head 4 (select_number df))] else [])
     @ [Table (rows (table_data env df)) (map col_name (df_columns (table_data env df)))]"

definition correlation_calls :: "'v dataframe \<Rightarrow> 'v draw_call list" where
  "correlation_calls df = [Figure, Heatmap_corr (select_number df)]"

definition categorical_calls :: "'v dataframe \<Rightarrow> 'v draw_call list" where
  "categorical_calls df =
     [Subplots 2 2]
     @ map (\<lambda>col. Bar (col_name col) (head 10 (value_counts col))) (head 4 (select_object df))"

text \<open>One figure: its drawing calls in order, then \<open>plt.savefig(path)\<close>, which creates
  the file, and \<open>chart_files.append(path)\<close>. No call is guarded: the first one that
  raises ends \<open>generate_charts\<close>.\<close>

definition render_figure ::
  "'v env \<Rightarrow> 'v draw_call list \<Rightarrow> string \<Rightarrow> string list \<Rightarrow> 'v state
     \<Rightarrow> (error + string list) \<times> 'v state" where
  "render_figure env calls path chart_files s =
     (if list_all (draw env) calls \<and> draw env (Savefig path)
      then (Inr (chart_files @ [path]), s\<lparr>files := (files s)(path \<mapsto> Png_file)\<rparr>)
      else (Inl RenderError, s))"

definition generate_charts :: "'v env \<Rightarrow> 'v state \<Rightarrow> (error + string list) \<times> 'v state" where
  "generate_charts env s =
     (case data s of
        None \<Rightarrow> (Inr [], s)
      | Some df \<Rightarrow>
          if \<not> draw env (Style_use ''seaborn-v0_8'') then (Inl RenderError, s)
          else
            (case render_figure env (overview_calls env df)
                    (charts_path @ ''overview_dashboard.png'') [] s of
               (Inl e, s1) \<Rightarrow> (Inl e, s1)
             | (Inr chart_files1, s1) \<Rightarrow>
                 (case (if length (select_number df) > 1
                        then render_figure env (correlation_calls df)
                               (charts_path @ ''correlation_matrix.png'') chart_files1 s1
                        else (Inr chart_files1, s1)) of
                    (Inl e, s2) \<Rightarrow> (Inl e, s2)
                  | (Inr chart_files2, s2) \<Rightarrow>
                      (if length (select_object df) > 0
                       then render_figure env (categorical_calls df)
                              (charts_path @ ''categorical_analysis.png'') chart_files2 s2
                       else (Inr chart_files2, s2)))))"

text \<open>The drawing calls one run of \<open>generate_charts\<close> makes on a table, in the order
  of the method, when none of them raises.\<close>

definition drawing_calls :: "'v env \<Rightarrow> 'v dataframe \<Rightarrow> 'v draw_call list" where
  "drawing_calls env df =
     [Style_use ''seaborn-v0_8'']
     @ overview_calls env df @ [Savefig (charts_path @ ''overview_dashboard.png'')]
     @ (if length (select_number df) > 1
        then correlation_calls df @ [Savefig (charts_path @ ''correlation_matrix.png'')] else [])
     @ (if length (select_object df) > 0
        then categorical_calls df @ [Savefig (charts_path @ ''categorical_analysis.png'')] else [])"

subsection \<open>generate\_pdf\_report\<close>

definition get_or_na :: "(basic_stats \<Rightarrow> nat) \<Rightarrow> basic_stats option \<Rightarrow> string" where
  "get_or_na field bs = (case bs of None \<Rightarrow> ''N/A'' | Some b \<Rightarrow> str_nat (field b))"

definition newline :: char where
  "newline = CHR 0x0A"

definition summary_text :: "basic_stats option \<Rightarrow> string" where
  "summary_text bs =
     [newline]
     @ ''This automated report provides a comprehensive analysis of the loaded dataset containing '' @ [newline]
     @ get_or_na total_rows bs @ '' rows and '' @ [newline]
     @ get_or_na total_columns bs @ '' columns.'' @ [newline]
     @ [newline]
     @ ''Key findings include statistical summaries, correlation analysis, and categorical '' @ [newline]
     @ ''breakdowns. The analysis reveals patterns and insights that can inform business '' @ [newline]
     @ ''decisions and data-driven strategies.'' @ [newline]
     @ ''        ''"

definition title_page :: "'v env \<Rightarrow> string \<Rightarrow> basic_stats option \<Rightarrow> pdf \<Rightarrow> pdf" where
  "title_page env report_title bs p0 =
     (let p1 = add_page p0;
          p2 = cell 30 report_title p1;
          p3 = cell 10 (''Generated on: '' @ now env) p2;
          p4 = cell 10 ''Generated by: PhantomX256'' p3;
          p5 = ln_pdf 20 p4;
          p6 = cell 10 ''Executive Summary'' p5;
          lines = split newline (strip (summary_text bs))
      in foldl (\<lambda>p line. if strip line \<noteq> [] then cell 6 (strip line) p else p) p6 lines)"

definition data_overview :: "basic_stats option \<Rightarrow> pdf \<Rightarrow> pdf" where
  "data_overview bs p0 =
     (let p1 = add_page p0;
          p2 = cell 10 ''Data Overview'' p1;
          p3 = cell 8 (''Total Rows: '' @ get_or_na total_rows bs) p2;
          p4 = cell 8 (''Total Columns: '' @ get_or_na total_columns bs) p3
      in cell 8 (''Missing Values: '' @ get_or_na missing_values bs) p4)"

definition chart_title :: "string \<Rightarrow> string" where
  "chart_title chart_path = title (replace ''_'' '' '' (replace ''.png'' [] (basename chart_path)))"

text \<open>The loop over \<open>enumerate(chart_files)\<close>. A chart whose file is missing is skipped;
  the first chart stays on the data-overview page, a later one opens a page; an image
  that cannot be embedded (\<open>pdf.image\<close> raises) is replaced by a line of text.\<close>

fun add_charts :: "'v env \<Rightarrow> 'v state \<Rightarrow> nat \<Rightarrow> string list \<Rightarrow> pdf \<Rightarrow> pdf" where
  "add_charts env s i [] p = p"
| "add_charts env s i (chart_path # rest) p =
     (if path_exists s chart_path
      then (let p1 = (if i > 0 then add_page p else p);
                p2 = cell 10 (chart_title chart_path) p1;
                p3 = (if image_ok env chart_path then image_pdf chart_path p2
                      else cell 10 (''Chart could not be loaded: '' @ chart_path) p2)
            in add_charts env s (Suc i) rest p3)
      else add_charts env s (Suc i) rest p)"

definition stat_lines :: "'v env \<Rightarrow> numeric_summary \<Rightarrow> string \<Rightarrow> pdf \<Rightarrow> pdf" where
  "stat_lines env summary_df col p0 =
     foldl (\<lambda>p stat.
         if stat \<in> set (ns_index summary_df)
         then cell 6 (title stat @ '': '' @ fmt_stat env stat col) p else p)
       p0 [''mean'', ''std'', ''min'', ''max'']"

definition statistical_summary :: "'v env \<Rightarrow> numeric_summary \<Rightarrow> pdf \<Rightarrow> pdf" where
  "statistical_summary env summary_df p0 =
     (let p1 = add_page p0;
          p2 = cell 10 ''Statistical Summary'' p1
      in foldl (\<lambda>p col. stat_lines env summary_df col (cell 8 (''Column: '' @ col) (ln_pdf 5 p)))
           p2 (head 3 (ns_columns summary_df)))"

text \<open>The document as it stands when it is handed to \<open>pdf.output\<close>.\<close>

definition build_pdf :: "'v env \<Rightarrow> string \<Rightarrow> string list \<Rightarrow> 'v state \<Rightarrow> pdf" where
  "build_pdf env report_title chart_files s =
     (let bs = ar_basic_stats (analysis_results s);
          p1 = title_page env report_title bs FPDF;
          p2 = data_overview bs p1;
          p3 = add_charts env s 0 chart_files p2
      in (case ar_numeric_summary (analysis_results s) of
            None \<Rightarrow> p3
          | Some summary_df \<Rightarrow> statistical_summary env summary_df p3))"

text \<open>The clean-up loop after the document is written. It is plain code after
  \<open>pdf.output\<close>: when the writer raises, the method ends there.\<close>

definition cleanup :: "string list \<Rightarrow> 'v state \<Rightarrow> 'v state" where
  "cleanup chart_files s0 =
     foldl (\<lambda>s chart_path. if path_exists s chart_path then os_remove chart_path s else s)
       s0 chart_files"

definition generate_pdf_report ::
  "'v env \<Rightarrow> string \<Rightarrow> string \<Rightarrow> 'v state \<Rightarrow> (error + string) \<times> 'v state" where
  "generate_pdf_report env output_path report_title s =
     (case generate_charts env s of
        (Inl e, s1) \<Rightarrow> (Inl e, s1)
      | (Inr chart_files, s1) \<Rightarrow>
          (let doc = build_pdf env report_title chart_files s1
           in if output_ok env output_path
              then (let s2 = s1\<lparr>files := (files s1)(output_path \<mapsto> Pdf_file doc)\<rparr>;
                        s3 = print (''Report generated successfully: '' @ output_path) s2
                    in (Inr output_path, cleanup chart_files s3))
              else (Inl WriteError, s1)))"

section \<open>Concrete inputs\<close>

text \<open>A small table (one object column with a null, one floating column with a null, one
  integer column), an empty table with three declared columns, and an environment in
  which one CSV file can be read and every drawing, embedding and writing call returns.\<close>

definition sample_df :: "string dataframe" where
  "sample_df = \<lparr>df_len = 4, df_columns =
     [\<lparr>col_name = ''region'', col_dtype = Object,
        col_cells = [Some ''north'', Some ''south'', None, Some ''north'']\<rparr>,
      \<lparr>col_name = ''amount'', col_dtype = Float64,
        col_cells = [Some ''10.5'', None, Some ''7.25'', Some ''3'']\<rparr>,
      \<lparr>col_name = ''qty'', col_dtype = Int64,
        col_cells = [Some ''1'', Some ''2'', Some ''3'', Some ''4'']\<rparr>]\<rparr>"

definition empty_df :: "string dataframe" where
  "empty_df = \<lparr>df_len = 0, df_columns =
     [\<lparr>col_name = ''a'', col_dtype = Object, col_cells = []\<rparr>,
      \<lparr>col_name = ''b'', col_dtype = Object, col_cells = []\<rparr>,
      \<lparr>col_name = ''c'', col_dtype = Object, col_cells = []\<rparr>]\<rparr>"

definition sample_env :: "string env" where
  "sample_env = \<lparr>
     read_csv = (\<lambda>path. if path = ''sales.csv'' then Inr sample_df
                        else Inl (ReadError ''No such file or directory'')),
     read_excel = (\<lambda>path. Inl (ReadError ''No such file or directory'')),
     read_json = (\<lambda>path. Inl (ReadError ''No such file or directory'')),
     draw = (\<lambda>c. True),
     image_ok = (\<lambda>path. True),
     output_ok = (\<lambda>path. True),
     now = ''2024-01-01 00:00:00'',
     round2 = (\<lambda>v. v),
     fmt_stat = (\<lambda>stat col. ''0.00'')\<rparr>"

definition loaded :: "string dataframe \<Rightarrow> string state" where
  "loaded df = (init Map.empty)\<lparr>data := Some df\<rparr>"

text \<open>A backend in which every call returns but \<open>axes.table\<close> on a table without rows:
  matplotlib's \<open>table\<close> takes the number of columns from \<open>len(cellText[0])\<close>, which is
  an \<open>IndexError\<close> when \<open>cellText\<close> is empty.\<close>

definition matplotlib_draw :: "'v draw_call \<Rightarrow> bool" where
  "matplotlib_draw c = (case c of Table cellText colLabels \<Rightarrow> cellText \<noteq> [] | _ \<Rightarrow> True)"

text \<open>The sample table after \<open>analyze_data\<close>, and after \<open>generate_charts\<close> as
  well, with the three chart files it leaves.\<close>

definition analysed :: "string state" where
  "analysed = snd (analyze_data (loaded sample_df))"

definition rendered :: "string state" where
  "rendered = snd (generate_charts sample_env analysed)"

definition sample_charts :: "string list" where
  "sample_charts = [''temp_charts/overview_dashboard.png'', ''temp_charts/correlation_matrix.png'',
     ''temp_charts/categorical_analysis.png'']"

text \<open>Three variations of the sample environment: the document writer raises; the pie
  chart of the overview raises; embedding the correlation image raises.\<close>

definition failing_write_env :: "string env" where
  "failing_write_env = sample_env\<lparr>output_ok := (\<lambda>path. False)\<rparr>"

definition failing_pie_env :: "string env" where
  "failing_pie_env = sample_env\<lparr>draw := (\<lambda>c. case c of Pie counts \<Rightarrow> False | _ \<Rightarrow> True)\<rparr>"

definition failing_image_env :: "string env" where
  "failing_image_env =
     sample_env\<lparr>image_ok := (\<lambda>path. path \<noteq> ''temp_charts/correlation_matrix.png'')\<rparr>"

definition matplotlib_env :: "string env" where
  "matplotlib_env = sample_env\<lparr>draw := matplotlib_draw\<rparr>"

text \<open>A table whose object column has seven distinct values and a null, and a table
  whose only column is boolean.\<close>

definition survey_df :: "string dataframe" where
  "survey_df = \<lparr>df_len = 11, df_columns =
     [\<lparr>col_name = ''answer'', col_dtype = Object,
        col_cells = [Some ''a'', Some ''b'', Some ''a'', Some ''c'', Some ''d'', None,
                     Some ''e'', Some ''f'', Some ''a'', Some ''b'', Some ''g'']\<rparr>,
      \<lparr>col_name = ''score'', col_dtype = Int64,
        col_cells = [Some ''1'', Some ''2'', Some ''3'', Some ''4'', Some ''5'', Some ''6'',
                     Some ''7'', Some ''8'', Some ''9'', Some ''10'', Some ''11'']\<rparr>]\<rparr>"

definition flags_df :: "string dataframe" where
  "flags_df = \<lparr>df_len = 2, df_columns =
     [\<lparr>col_name = ''active'', col_dtype = Bool,
        col_cells = [Some ''True'', Some ''False'']\<rparr>]\<rparr>"

section \<open>Auxiliary facts\<close>

lemma length_filter_sum_list:
  "length (filter P xs) = sum_list (map (\<lambda>x. if P x then 1 else 0) xs)"
  by (induction xs) auto

lemma isnull_sum_by_index:
  "isnull_sum c = sum_list (map (\<lambda>i. if cell_at c i = None then 1 else 0) [0..<length (col_cells c)])"
proof -
  have "map (\<lambda>i. if cell_at c i = None then 1 else 0 :: nat) [0..<length (col_cells c)]
      = map (\<lambda>x. if x = None then 1 else 0) (map (\<lambda>i. col_cells c ! i) [0..<length (col_cells c)])"
    by (simp add: cell_at_def)
  also have "\<dots> = map (\<lambda>x. if x = None then 1 else 0) (col_cells c)"
    by (simp only: map_nth)
  finally show ?thesis
    by (simp add: isnull_sum_def length_filter_sum_list)
qed

lemma column_sums_eq_row_sums:
  assumes "\<forall>c\<in>set cols. length (col_cells c) = n"
  shows "sum_list (map isnull_sum cols)
       = sum_list (map (\<lambda>i. length (filter (\<lambda>x. x = None) (map (\<lambda>c. cell_at c i) cols))) [0..<n])"
  using assms
proof (induction cols)
  case Nil
  then show ?case by simp
next
  case (Cons c cols)
  have "isnull_sum c = sum_list (map (\<lambda>i. if cell_at c i = None then 1 else 0) [0..<n])"
    using Cons.prems isnull_sum_by_index [of c] by simp
  moreover have "sum_list (map isnull_sum cols)
       = sum_list (map (\<lambda>i. length (filter (\<lambda>x. x = None) (map (\<lambda>c. cell_at c i) cols))) [0..<n])"
    using Cons by simp
  moreover have "map (\<lambda>i. length (filter (\<lambda>x. x = None) (map (\<lambda>c. cell_at c i) (c # cols)))) [0..<n]
      = map (\<lambda>i. (if cell_at c i = None then 1 else 0)
                 + length (filter (\<lambda>x. x = None) (map (\<lambda>c. cell_at c i) cols))) [0..<n]"
    by (rule map_cong) auto
  ultimately show ?case
    by (simp only: list.map sum_list.Cons sum_list_addf)
qed

lemma foldl_upd_other:
  "k \<notin> set (map key xs) \<Longrightarrow> foldl (\<lambda>m x. m(key x \<mapsto> f x)) m0 xs k = m0 k"
  by (induction xs arbitrary: m0) auto

lemma foldl_upd_distinct:
  "distinct (map key xs) \<Longrightarrow> x \<in> set xs \<Longrightarrow>
     foldl (\<lambda>m x. m(key x \<mapsto> f x)) m0 xs (key x) = Some (f x)"
proof (induction xs arbitrary: m0)
  case Nil
  then show ?case by simp
next
  case (Cons a xs)
  show ?case
  proof (cases "x = a")
    case True
    have "foldl (\<lambda>m x. m(key x \<mapsto> f x)) (m0(key a \<mapsto> f a)) xs (key a)
            = (m0(key a \<mapsto> f a)) (key a)"
      using Cons.prems(1) by (intro foldl_upd_other) simp
    with True show ?thesis by (simp only: foldl_Cons fun_upd_same)
  next
    case False
    then have "x \<in> set xs" and "distinct (map key xs)"
      using Cons.prems by auto
    then have "foldl (\<lambda>m x. m(key x \<mapsto> f x)) (m0(key a \<mapsto> f a)) xs (key x) = Some (f x)"
      by (intro Cons.IH)
    then show ?thesis by (simp only: foldl_Cons)
  qed
qed

lemma set_dropna: "set (dropna xs) = {v. Some v \<in> set xs}"
  by (induction xs) (auto simp: dropna_def split: option.splits)

lemma count_dropna: "count_list (dropna xs) v = count_list xs (Some v)"
  by (induction xs) (auto simp: dropna_def split: option.splits)

lemma length_unique: "length (unique vs) = card (set vs)"
  by (simp add: unique_def length_remdups_card_conv)

lemma set_unique: "set (unique vs) = set vs"
  by (simp add: unique_def)

lemma length_value_counts_of: "length (value_counts_of vs) = card (set vs)"
  by (simp add: value_counts_of_def length_unique)

lemma set_value_counts_of: "set (value_counts_of vs) = (\<lambda>v. (v, count_list vs v)) ` set vs"
  by (simp add: value_counts_of_def set_unique)

lemma sorted_value_counts_of: "sorted_wrt (\<lambda>p q. snd p \<ge> snd q) (value_counts_of vs)"
proof -
  have "sorted (map (\<lambda>p. - int (snd p)) (value_counts_of vs))"
    unfolding value_counts_of_def by (rule sorted_sort_key)
  then show ?thesis
    by (simp add: sorted_map)
qed

lemma distinct_value_counts_of: "distinct (map fst (value_counts_of vs))"
proof -
  have "set (map fst (value_counts_of vs)) = set vs"
    by (simp add: set_value_counts_of image_image)
  then have "card (set (map fst (value_counts_of vs))) = length (map fst (value_counts_of vs))"
    by (simp add: length_value_counts_of)
  then show ?thesis by (rule card_distinct)
qed

lemma count_list_pos: "x \<in> set xs \<Longrightarrow> 0 < count_list xs x"
  using count_list_0_iff [of xs x] by (cases "count_list xs x") auto

subsection \<open>The cursor stays on the page\<close>

lemma add_page_eq: "add_page p = \<lparr>pages = pages p @ [[]], y = t_margin\<rparr>"
  by (simp add: add_page_def)

lemma cell_eq:
  "pages p \<noteq> [] \<Longrightarrow> y p + h \<le> page_break_trigger \<Longrightarrow>
     cell h txt p = \<lparr>pages = butlast (pages p) @ [last (pages p) @ [Cell h txt]], y = y p + h\<rparr>"
  by (simp add: cell_def put_def)

lemma ln_eq:
  "pages p \<noteq> [] \<Longrightarrow>
     ln_pdf h p = \<lparr>pages = butlast (pages p) @ [last (pages p) @ [Ln h]], y = y p + h\<rparr>"
  by (simp add: ln_pdf_def put_def)

lemma image_eq:
  "pages p \<noteq> [] \<Longrightarrow>
     image_pdf path p = \<lparr>pages = butlast (pages p) @ [last (pages p) @ [Image path]], y = y p\<rparr>"
  by (simp add: image_pdf_def put_def)

lemma data_overview_eq:
  "data_overview bs p = \<lparr>pages = pages p @
      [[Cell 10 ''Data Overview'',
        Cell 8 (''Total Rows: '' @ get_or_na total_rows bs),
        Cell 8 (''Total Columns: '' @ get_or_na total_columns bs),
        Cell 8 (''Missing Values: '' @ get_or_na missing_values bs)]],
      y = t_margin + 34\<rparr>"
  by (simp add: data_overview_def Let_def add_page_eq cell_eq t_margin_def page_break_trigger_def)

lemma length_split: "length (split sep s) = Suc (count_list s sep)"
  by (induction s) (auto split: list.splits)

lemma count_dropWhile_le: "count_list (dropWhile P xs) c \<le> count_list xs c"
  by (induction xs) auto

lemma count_strip_le: "count_list (strip s) c \<le> count_list s c"
proof -
  have "count_list (strip s) c = count_list (dropWhile is_space (rev (dropWhile is_space s))) c"
    by (simp add: strip_def)
  also have "\<dots> \<le> count_list (rev (dropWhile is_space s)) c"
    by (rule count_dropWhile_le)
  also have "\<dots> \<le> count_list s c"
    by (simp add: count_dropWhile_le)
  finally show ?thesis .
qed

lemma newline_not_digit: "d < 10 \<Longrightarrow> char_of (48 + d :: nat) \<noteq> newline"
proof
  assume "d < 10" and "char_of (48 + d) = newline"
  then have "of_char (char_of (48 + d) :: char) = (of_char newline :: nat)" by simp
  then have "(48 + d) mod 256 = (10 :: nat)" by (simp add: newline_def)
  with \<open>d < 10\<close> show False by simp
qed

lemma count_newline_str_nat: "count_list (str_nat n) newline = 0"
proof (induction n rule: str_nat.induct)
  case (1 n)
  show ?case
  proof (cases "n < 10")
    case True
    then show ?thesis using newline_not_digit [of n] by (subst str_nat.simps) simp
  next
    case False
    moreover have "char_of (48 + n mod 10) \<noteq> newline"
      by (rule newline_not_digit) simp
    ultimately show ?thesis using 1 by (subst str_nat.simps) simp
  qed
qed

lemma count_newline_get_or_na: "count_list (get_or_na field bs) newline = 0"
proof (cases bs)
  case None
  then show ?thesis by (simp add: get_or_na_def newline_def)
next
  case (Some b)
  then show ?thesis by (simp add: get_or_na_def count_newline_str_nat)
qed


lemma count_newline_summary_text: "count_list (summary_text bs) newline = 8"
proof -
  have g: "count_list (get_or_na field bs) (CHR 0x0A) = 0" for field
    using count_newline_get_or_na [of field bs] by (simp only: newline_def)
  show ?thesis
    by (simp add: summary_text_def newline_def g)
qed

lemma summary_lines_le: "length (split newline (strip (summary_text bs))) \<le> 9"
  using count_strip_le [of "summary_text bs" newline]
  by (simp add: length_split count_newline_summary_text)

lemma fold_lines:
  "v + 6 * of_nat (length ls) \<le> page_break_trigger \<Longrightarrow>
     \<exists>pg' v'. foldl (\<lambda>p line. if strip line \<noteq> [] then cell 6 (strip line) p else p)
                \<lparr>pages = ps @ [pg], y = v\<rparr> ls = \<lparr>pages = ps @ [pg @ pg'], y = v'\<rparr>"
proof (induction ls arbitrary: pg v)
  case Nil
  then show ?case by simp
next
  case (Cons l ls)
  show ?case
  proof (cases "strip l \<noteq> []")
    case True
    have "v + 6 \<le> page_break_trigger" and "(v + 6) + 6 * of_nat (length ls) \<le> page_break_trigger"
      using Cons.prems by (simp_all add: algebra_simps) 
    then show ?thesis
      using True Cons.IH [of "v + 6" "pg @ [Cell 6 (strip l)]"] by (auto simp: cell_eq)
  next
    case False
    have "v + 6 * of_nat (length ls) \<le> page_break_trigger"
      using Cons.prems by (simp add: algebra_simps)
    then show ?thesis
      using False Cons.IH [of v pg] by auto
  qed
qed

lemma title_page_pages:
  "\<exists>rest v. title_page env report_title bs FPDF
       = \<lparr>pages = [Cell 30 report_title # rest], y = v\<rparr>"
proof -
  let ?ls = "split newline (strip (summary_text bs))"
  let ?pg = "[Cell 30 report_title, Cell 10 (''Generated on: '' @ now env),
              Cell 10 ''Generated by: PhantomX256'', Ln 20, Cell 10 ''Executive Summary'']"
  have start: "cell 10 ''Executive Summary'' (ln_pdf 20 (cell 10 ''Generated by: PhantomX256''
       (cell 10 (''Generated on: '' @ now env) (cell 30 report_title (add_page FPDF)))))
       = \<lparr>pages = [] @ [?pg], y = t_margin + 80\<rparr>"
    by (simp add: FPDF_def add_page_eq cell_eq ln_eq t_margin_def page_break_trigger_def)
  have "(t_margin + 80) + 6 * of_nat (length ?ls) \<le> page_break_trigger"
  proof -
    have "(of_nat (length ?ls) :: rat) \<le> 9"
      using summary_lines_le [of bs] by (simp only: of_nat_le_iff [of _ 9, where ?'a = rat, simplified])
    then show ?thesis by (simp add: t_margin_def page_break_trigger_def)
  qed
  from fold_lines [OF this, of "[]" ?pg]
  obtain pg' v' where
    "foldl (\<lambda>p line. if strip line \<noteq> [] then cell 6 (strip line) p else p)
       \<lparr>pages = [] @ [?pg], y = t_margin + 80\<rparr> ?ls = \<lparr>pages = [] @ [?pg @ pg'], y = v'\<rparr>"
    by blast
  moreover have "title_page env report_title bs FPDF
      = foldl (\<lambda>p line. if strip line \<noteq> [] then cell 6 (strip line) p else p)
          \<lparr>pages = [] @ [?pg], y = t_margin + 80\<rparr> ?ls"
    by (simp only: title_page_def Let_def start)
  ultimately have "title_page env report_title bs FPDF = \<lparr>pages = [] @ [?pg @ pg'], y = v'\<rparr>"
    by (rule trans [rotated])
  then show ?thesis by simp
qed

lemma foldl_same_page:
  assumes step: "\<And>x ps pg v. v + d \<le> page_break_trigger \<Longrightarrow>
       \<exists>pg' v'. f \<lparr>pages = ps @ [pg], y = v\<rparr> x = \<lparr>pages = ps @ [pg @ pg'], y = v'\<rparr> \<and> v' \<le> v + d"
    and "0 \<le> d"
    and "v + d * of_nat (length xs) \<le> page_break_trigger"
  shows "\<exists>pg' v'. foldl f \<lparr>pages = ps @ [pg], y = v\<rparr> xs = \<lparr>pages = ps @ [pg @ pg'], y = v'\<rparr>
           \<and> v' \<le> v + d * of_nat (length xs)"
  using assms(3)
proof (induction xs arbitrary: pg v)
  case Nil
  then show ?case by simp
next
  case (Cons x xs)
  have le: "v + d \<le> v + d * of_nat (length (x # xs))"
    using \<open>0 \<le> d\<close> by (simp add: algebra_simps)
  then have "v + d \<le> page_break_trigger"
    using Cons.prems by simp
  from step [OF this, of ps pg x] obtain pg1 v1 where
    one: "f \<lparr>pages = ps @ [pg], y = v\<rparr> x = \<lparr>pages = ps @ [pg @ pg1], y = v1\<rparr>" and v1: "v1 \<le> v + d"
    by blast
  have "v1 + d * of_nat (length xs) \<le> v + d * of_nat (length (x # xs))"
    using v1 by (simp add: algebra_simps)
  then have "v1 + d * of_nat (length xs) \<le> page_break_trigger"
    using Cons.prems by simp
  from Cons.IH [OF this, of "pg @ pg1"] obtain pg2 v2 where
    two: "foldl f \<lparr>pages = ps @ [pg @ pg1], y = v1\<rparr> xs = \<lparr>pages = ps @ [(pg @ pg1) @ pg2], y = v2\<rparr>"
    and v2: "v2 \<le> v1 + d * of_nat (length xs)"
    by blast
  have "v2 \<le> v + d * of_nat (length (x # xs))"
    using v1 v2 by (simp add: algebra_simps)
  with one two show ?case
    by (intro exI [of _ "pg1 @ pg2"] exI [of _ v2]) simp
qed

lemma cell_same_page:
  "v + h \<le> page_break_trigger \<Longrightarrow>
     cell h txt \<lparr>pages = ps @ [pg], y = v\<rparr> = \<lparr>pages = ps @ [pg @ [Cell h txt]], y = v + h\<rparr>"
  by (simp add: cell_eq)

lemma stat_lines_same_page:
  assumes "v + 24 \<le> page_break_trigger"
  shows "\<exists>pg' v'. stat_lines env summary_df col \<lparr>pages = ps @ [pg], y = v\<rparr>
             = \<lparr>pages = ps @ [pg @ pg'], y = v'\<rparr> \<and> v' \<le> v + 24"
proof -
  have "\<exists>pg' v'. foldl (\<lambda>p stat. if stat \<in> set (ns_index summary_df)
              then cell 6 (title stat @ '': '' @ fmt_stat env stat col) p else p)
            \<lparr>pages = ps @ [pg], y = v\<rparr> [''mean'', ''std'', ''min'', ''max'']
          = \<lparr>pages = ps @ [pg @ pg'], y = v'\<rparr>
        \<and> v' \<le> v + 6 * of_nat (length [''mean'', ''std'', ''min'', ''max''])"
  proof (rule foldl_same_page)
    fix x :: string and ps pg and v :: rat
    assume "v + 6 \<le> page_break_trigger"
    then show "\<exists>pg' v'. (if x \<in> set (ns_index summary_df)
            then cell 6 (title x @ '': '' @ fmt_stat env x col) \<lparr>pages = ps @ [pg], y = v\<rparr>
            else \<lparr>pages = ps @ [pg], y = v\<rparr>) = \<lparr>pages = ps @ [pg @ pg'], y = v'\<rparr> \<and> v' \<le> v + 6"
      by (cases "x \<in> set (ns_index summary_df)") (auto simp: cell_same_page intro: exI [of _ "[]"])
  next
    show "(0::rat) \<le> 6" by simp
  next
    show "v + 6 * of_nat (length [''mean'', ''std'', ''min'', ''max'']) \<le> page_break_trigger"
      using assms by simp
  qed
  then show ?thesis by (simp add: stat_lines_def)
qed

lemma column_same_page:
  assumes "v + 37 \<le> page_break_trigger"
  shows "\<exists>pg' v'. stat_lines env summary_df col
             (cell 8 (''Column: '' @ col) (ln_pdf 5 \<lparr>pages = ps @ [pg], y = v\<rparr>))
             = \<lparr>pages = ps @ [pg @ pg'], y = v'\<rparr> \<and> v' \<le> v + 37"
proof -
  have "cell 8 (''Column: '' @ col) (ln_pdf 5 \<lparr>pages = ps @ [pg], y = v\<rparr>)
      = \<lparr>pages = ps @ [(pg @ [Ln 5, Cell 8 (''Column: '' @ col)])], y = v + 13\<rparr>"
    using assms by (simp add: ln_eq cell_eq)
  moreover have "(v + 13) + 24 \<le> page_break_trigger"
    using assms by simp
  from stat_lines_same_page [OF this, of env summary_df col ps "pg @ [Ln 5, Cell 8 (''Column: '' @ col)]"]
  obtain pg' v' where "stat_lines env summary_df col
       \<lparr>pages = ps @ [(pg @ [Ln 5, Cell 8 (''Column: '' @ col)])], y = v + 13\<rparr>
      = \<lparr>pages = ps @ [(pg @ [Ln 5, Cell 8 (''Column: '' @ col)]) @ pg'], y = v'\<rparr>" and "v' \<le> v + 13 + 24"
    by blast
  ultimately show ?thesis
    by (intro exI [of _ "[Ln 5, Cell 8 (''Column: '' @ col)] @ pg'"] exI [of _ v']) simp
qed

lemma statistical_summary_pages:
  "\<exists>rest. pages (statistical_summary env summary_df p)
       = pages p @ [Cell 10 ''Statistical Summary'' # rest]"
proof -
  let ?cols = "head 3 (ns_columns summary_df)"
  have start: "cell 10 ''Statistical Summary'' (add_page p)
      = \<lparr>pages = pages p @ [[Cell 10 ''Statistical Summary'']], y = t_margin + 10\<rparr>"
    by (simp add: add_page_eq cell_eq t_margin_def page_break_trigger_def)
  have "length ?cols \<le> 3" by (simp add: head_def)
  then have "(of_nat (length ?cols) :: rat) \<le> 3"
    by (simp only: of_nat_le_iff [of _ 3, where ?'a = rat, simplified])
  then have bound: "(t_margin + 10) + 37 * of_nat (length ?cols) \<le> page_break_trigger"
    by (simp add: t_margin_def page_break_trigger_def)
  have "\<exists>pg' v'. foldl (\<lambda>p col. stat_lines env summary_df col (cell 8 (''Column: '' @ col) (ln_pdf 5 p)))
           \<lparr>pages = pages p @ [[Cell 10 ''Statistical Summary'']], y = t_margin + 10\<rparr> ?cols
         = \<lparr>pages = pages p @ [[Cell 10 ''Statistical Summary''] @ pg'], y = v'\<rparr>
         \<and> v' \<le> (t_margin + 10) + 37 * of_nat (length ?cols)"
    by (rule foldl_same_page [OF column_same_page _ bound]) simp_all
  then show ?thesis
    by (auto simp: statistical_summary_def Let_def start)
qed

subsection \<open>The pages of the report\<close>

lemma chart_step_new_page:
  "pages (if image_ok env c then image_pdf c (cell 10 (chart_title c) (add_page p))
          else cell 10 (''Chart could not be loaded: '' @ c) (cell 10 (chart_title c) (add_page p)))
     = pages p @ [[Cell 10 (chart_title c),
                   if image_ok env c then Image c else Cell 10 (''Chart could not be loaded: '' @ c)]]"
  by (simp add: add_page_eq cell_eq image_eq t_margin_def page_break_trigger_def)

lemma chart_step_same_page:
  assumes "pages p \<noteq> []" and "y p + 20 \<le> page_break_trigger"
  shows "pages (if image_ok env c then image_pdf c (cell 10 (chart_title c) p)
          else cell 10 (''Chart could not be loaded: '' @ c) (cell 10 (chart_title c) p))
     = butlast (pages p) @ [last (pages p) @ [Cell 10 (chart_title c),
                   if image_ok env c then Image c else Cell 10 (''Chart could not be loaded: '' @ c)]]"
proof -
  have "y p + 10 \<le> page_break_trigger" using assms(2) by simp
  then have "cell 10 (chart_title c) p
      = \<lparr>pages = butlast (pages p) @ [last (pages p) @ [Cell 10 (chart_title c)]], y = y p + 10\<rparr>"
    using assms(1) by (simp add: cell_eq)
  then show ?thesis
    using assms(2) by (simp add: cell_eq image_eq)
qed

lemma add_charts_later:
  "0 < i \<Longrightarrow>
     pages (add_charts env s i chart_files p)
       = pages p @ map (\<lambda>c. [Cell 10 (chart_title c),
                              if image_ok env c then Image c
                              else Cell 10 (''Chart could not be loaded: '' @ c)])
                     (filter (path_exists s) chart_files)"
proof (induction chart_files arbitrary: i p)
  case Nil
  then show ?case by simp
next
  case (Cons c cs)
  show ?case
  proof (cases "path_exists s c")
    case True
    let ?p3 = "if image_ok env c then image_pdf c (cell 10 (chart_title c) (add_page p))
          else cell 10 (''Chart could not be loaded: '' @ c) (cell 10 (chart_title c) (add_page p))"
    have "add_charts env s i (c # cs) p = add_charts env s (Suc i) cs ?p3"
      using True Cons.prems by (simp add: Let_def)
    then show ?thesis
      using True Cons.IH [of "Suc i" ?p3] by (simp only: chart_step_new_page) simp
  next
    case False
    then show ?thesis using Cons.IH [of "Suc i" p] by simp
  qed
qed

lemma add_charts_first:
  assumes "pages p \<noteq> []" and "y p + 20 \<le> page_break_trigger"
  shows "pages (add_charts env s 0 chart_files p)
       = (case chart_files of [] \<Rightarrow> pages p
          | c # cs \<Rightarrow>
              (if path_exists s c
               then butlast (pages p) @ [last (pages p) @ [Cell 10 (chart_title c),
                      if image_ok env c then Image c
                      else Cell 10 (''Chart could not be loaded: '' @ c)]]
               else pages p)
              @ map (\<lambda>c. [Cell 10 (chart_title c),
                           if image_ok env c then Image c
                           else Cell 10 (''Chart could not be loaded: '' @ c)])
                  (filter (path_exists s) cs))"
proof (cases chart_files)
  case Nil
  then show ?thesis by simp
next
  case (Cons c cs)
  show ?thesis
  proof (cases "path_exists s c")
    case True
    let ?p3 = "if image_ok env c then image_pdf c (cell 10 (chart_title c) p)
          else cell 10 (''Chart could not be loaded: '' @ c) (cell 10 (chart_title c) p)"
    have "add_charts env s 0 (c # cs) p = add_charts env s (Suc 0) cs ?p3"
      using True by (simp add: Let_def)
    then show ?thesis
      using True Cons add_charts_later [of "Suc 0" env s cs ?p3]
        chart_step_same_page [OF assms, of env c]
      by simp
  next
    case False
    then show ?thesis
      using Cons add_charts_later [of "Suc 0" env s cs p] by simp
  qed
qed

lemma build_pdf_pages:
  assumes "data_page = [Cell 10 ''Data Overview'',
        Cell 8 (''Total Rows: '' @ get_or_na total_rows (ar_basic_stats (analysis_results s))),
        Cell 8 (''Total Columns: '' @ get_or_na total_columns (ar_basic_stats (analysis_results s))),
        Cell 8 (''Missing Values: '' @ get_or_na missing_values (ar_basic_stats (analysis_results s)))]"
    and "chart_blocks = (\<lambda>c. [Cell 10 (chart_title c),
                         if image_ok env c then Image c
                         else Cell 10 (''Chart could not be loaded: '' @ c)])"
  shows "\<exists>T S. pages (build_pdf env report_title chart_files s)
     = [Cell 30 report_title # T,
        data_page @ concat (map chart_blocks (filter (path_exists s) (take 1 chart_files)))]
       @ map chart_blocks (filter (path_exists s) (drop 1 chart_files))
       @ (case ar_numeric_summary (analysis_results s) of
            None \<Rightarrow> [] | Some summary_df \<Rightarrow> [Cell 10 ''Statistical Summary'' # S])"
proof -
  let ?bs = "ar_basic_stats (analysis_results s)"
  obtain T v where title: "title_page env report_title ?bs FPDF
       = \<lparr>pages = [Cell 30 report_title # T], y = v\<rparr>"
    using title_page_pages by blast
  let ?p2 = "data_overview ?bs (title_page env report_title ?bs FPDF)"
  have p2: "?p2 = \<lparr>pages = [Cell 30 report_title # T, data_page], y = t_margin + 34\<rparr>"
    by (simp add: data_overview_eq title assms(1))
  let ?p3 = "add_charts env s 0 chart_files ?p2"
  have "pages ?p2 \<noteq> []" and "y ?p2 + 20 \<le> page_break_trigger"
    by (simp_all add: p2 t_margin_def page_break_trigger_def)
  from add_charts_first [OF this, of env s chart_files]
  have p3: "pages ?p3 = [Cell 30 report_title # T,
        data_page @ concat (map chart_blocks (filter (path_exists s) (take 1 chart_files)))]
       @ map chart_blocks (filter (path_exists s) (drop 1 chart_files))"
    by (cases chart_files) (simp_all add: p2 assms(2))
  show ?thesis
  proof (cases "ar_numeric_summary (analysis_results s)")
    case None
    have "pages (build_pdf env report_title chart_files s) = pages ?p3"
      using None by (simp add: build_pdf_def Let_def)
    then show ?thesis
      using None p3 by (intro exI [of _ T] exI [of _ "[]"]) simp
  next
    case (Some summary_df)
    obtain S where S: "pages (statistical_summary env summary_df ?p3)
        = pages ?p3 @ [Cell 10 ''Statistical Summary'' # S]"
      using statistical_summary_pages by blast
    have "pages (build_pdf env report_title chart_files s)
        = pages (statistical_summary env summary_df ?p3)"
      using Some by (simp add: build_pdf_def Let_def)
    then show ?thesis
      using Some p3 S by (intro exI [of _ T] exI [of _ S]) simp
  qed
qed

lemma build_pdf_length:
  "length (pages (build_pdf env report_title chart_files s))
     = 2 + length (filter (path_exists s) (drop 1 chart_files))
       + (if ar_numeric_summary (analysis_results s) = None then 0 else 1)"
proof -
  from build_pdf_pages [OF refl refl, of env report_title chart_files s]
  obtain T S pg where "pages (build_pdf env report_title chart_files s)
     = [Cell 30 report_title # T, pg]
       @ map (\<lambda>c. [Cell 10 (chart_title c),
                         if image_ok env c then Image c
                         else Cell 10 (''Chart could not be loaded: '' @ c)])
           (filter (path_exists s) (drop 1 chart_files))
       @ (case ar_numeric_summary (analysis_results s) of
            None \<Rightarrow> [] | Some summary_df \<Rightarrow> [Cell 10 ''Statistical Summary'' # S])"
    by blast
  then show ?thesis
    by (simp split: option.split)
qed

subsection \<open>Chart generation and clean-up\<close>

lemma generate_charts_returns:
  assumes "data s = Some df" and "generate_charts env s = (Inr chart_files, s1)"
  shows "chart_files = [charts_path @ ''overview_dashboard.png'']
           @ (if 1 < length (select_number df) then [charts_path @ ''correlation_matrix.png''] else [])
           @ (if 0 < length (select_object df) then [charts_path @ ''categorical_analysis.png''] else [])"
    and "\<forall>chart_path \<in> set chart_files. path_exists s1 chart_path"
    and "data s1 = data s" and "analysis_results s1 = analysis_results s"
    and "\<forall>path. path \<notin> set chart_files \<longrightarrow> files s1 path = files s path"
  using assms
  by (auto simp: generate_charts_def render_figure_def path_exists_def
      split: if_splits prod.splits sum.splits)

lemma generate_charts_no_data:
  "data s = None \<Longrightarrow> generate_charts env s = (Inr [], s)"
  by (simp add: generate_charts_def)

lemma generate_charts_raises:
  assumes "data s = Some df" and "\<not> list_all (draw env) (overview_calls env df)"
  shows "fst (generate_charts env s) = Inl RenderError"
  using assms by (simp add: generate_charts_def render_figure_def)

lemma files_cleanup:
  "files (cleanup chart_files s) = (\<lambda>path. if path \<in> set chart_files then None else files s path)"
proof (induction chart_files arbitrary: s)
  case Nil
  then show ?case by (simp add: cleanup_def)
next
  case (Cons c cs)
  have "cleanup (c # cs) s = cleanup cs (if path_exists s c then os_remove c s else s)"
    by (simp add: cleanup_def)
  then show ?case
    using Cons.IH [of "if path_exists s c then os_remove c s else s"]
    by (auto simp: path_exists_def os_remove_def)
qed

lemma generate_charts_succeeds:
  assumes "data s = Some df" and "list_all (draw env) (drawing_calls env df)"
  shows "\<exists>s1. generate_charts env s =
      (Inr ([charts_path @ ''overview_dashboard.png'']
           @ (if 1 < length (select_number df) then [charts_path @ ''correlation_matrix.png''] else [])
           @ (if 0 < length (select_object df) then [charts_path @ ''categorical_analysis.png''] else [])), s1)"
  using assms
  by (simp add: generate_charts_def render_figure_def drawing_calls_def split: if_splits)

lemma generate_charts_fails:
  assumes "data s = Some df" and "\<not> list_all (draw env) (drawing_calls env df)"
  shows "fst (generate_charts env s) = Inl RenderError"
  using assms
  by (auto simp: generate_charts_def render_figure_def drawing_calls_def split: if_splits)

lemma data_analysed: "data analysed = Some sample_df"
  by (simp add: analysed_def analyze_data_def loaded_def init_def Let_def)

lemma len_num: "length (select_number sample_df) = 2" by code_simp
lemma len_obj: "length (select_object sample_df) = 1" by code_simp
lemma sample_draws: "list_all (draw sample_env) calls" by (simp add: sample_env_def list_all_iff)

lemma generate_charts_sample:
  "fst (generate_charts sample_env analysed) = Inr sample_charts"
  using generate_charts_succeeds [OF data_analysed sample_draws]
  by (auto simp: len_num len_obj sample_charts_def charts_path_def)

lemma rendered_exists: "list_all (path_exists rendered) sample_charts"
proof -
  obtain s1 where "generate_charts sample_env analysed = (Inr sample_charts, s1)"
    using generate_charts_sample by (cases "generate_charts sample_env analysed") simp
  then show ?thesis
    using generate_charts_returns(2) [OF data_analysed, of sample_env sample_charts s1]
    by (simp add: rendered_def list_all_iff)
qed


lemma numeric_summary_rendered: "ar_numeric_summary (analysis_results rendered) \<noteq> None"
proof -
  obtain s1 where g: "generate_charts sample_env analysed = (Inr sample_charts, s1)"
    using generate_charts_sample by (cases "generate_charts sample_env analysed") simp
  have "length (select_number sample_df) = 2" by code_simp
  then have "select_number sample_df \<noteq> []"
    by auto
  then have "ar_numeric_summary (analysis_results analysed) \<noteq> None"
    by (simp add: analysed_def analyze_data_def loaded_def init_def Let_def)
  then show ?thesis
    using generate_charts_returns(4) [OF data_analysed g] g by (simp add: rendered_def)
qed

lemma generate_charts_files_exist:
  assumes "generate_charts env s = (Inr chart_files, s1)"
  shows "list_all (path_exists s1) chart_files"
proof (cases "data s")
  case None
  then show ?thesis
    using assms by (simp add: generate_charts_no_data)
next
  case (Some df)
  from generate_charts_returns(2) [OF Some assms] show ?thesis
    by (simp add: list_all_iff)
qed

lemma generate_pdf_report_written:
  assumes "generate_charts env s = (Inr chart_files, s1)" and "output_ok env output_path"
  shows "generate_pdf_report env output_path report_title s =
     (Inr output_path,
      cleanup chart_files
        (print (''Report generated successfully: '' @ output_path)
           (s1\<lparr>files := (files s1)(output_path \<mapsto>
              Pdf_file (build_pdf env report_title chart_files s1))\<rparr>)))"
  using assms by (simp add: generate_pdf_report_def Let_def)

lemma generate_pdf_report_write_fails:
  assumes "generate_charts env s = (Inr chart_files, s1)" and "\<not> output_ok env output_path"
  shows "generate_pdf_report env output_path report_title s = (Inl WriteError, s1)"
  using assms by (simp add: generate_pdf_report_def Let_def)

lemma generate_pdf_report_render_fails:
  assumes "fst (generate_charts env s) = Inl e"
  shows "fst (generate_pdf_report env output_path report_title s) = Inl e"
  using assms by (cases "generate_charts env s") (simp add: generate_pdf_report_def)

lemma cleanup_removes: "list_all (\<lambda>path. \<not> path_exists (cleanup chart_files s) path) chart_files"
  by (simp add: list_all_iff path_exists_def files_cleanup)

lemma empty_df_table: "Table [] [] \<in> set (overview_calls env empty_df)"
  by (simp add: overview_calls_def table_data_def rows_def empty_df_def)

lemma data_analysed_empty: "data (snd (analyze_data (loaded empty_df))) = Some empty_df"
  by (simp add: analyze_data_def loaded_def init_def Let_def)

lemma empty_dataset_report_if_table_accepted:
  "\<exists>s2. generate_pdf_report sample_env ''automated_report.pdf'' ''Data Analysis Report''
          (snd (analyze_data (loaded empty_df))) = (Inr ''automated_report.pdf'', s2)"
proof -
  from generate_charts_succeeds [OF data_analysed_empty sample_draws]
  obtain chart_files s1 where
    g: "generate_charts sample_env (snd (analyze_data (loaded empty_df))) = (Inr chart_files, s1)"
    by blast
  have "output_ok sample_env ''automated_report.pdf''"
    by (simp add: sample_env_def)
  from generate_pdf_report_written [OF g this] show ?thesis
    by blast
qed

section \<open>The claims\<close>

text \<open>C1. For every loaded table, \<open>analyze_data\<close> records as
  \<open>basic_stats['missing_values']\<close> the number of null cells of the table, counted
  row by row over all columns.\<close>

theorem missing_values_counts_null_cells:
  assumes "data s = Some df" and "wf_dataframe df"
  shows "\<exists>s' bs. analyze_data s = (Inr True, s')
           \<and> ar_basic_stats (analysis_results s') = Some bs
           \<and> missing_values bs
               = sum_list (map (\<lambda>row. length (filter (\<lambda>x. x = None) row)) (rows df))"
proof -
  have "isnull_sum_sum df
      = sum_list (map (\<lambda>row. length (filter (\<lambda>x. x = None) row)) (rows df))"
    using assms(2) column_sums_eq_row_sums [of "df_columns df" "df_len df"]
    by (simp add: isnull_sum_sum_def rows_def wf_dataframe_def list_all_iff comp_def)
  then show ?thesis
    using assms(1) by (simp add: analyze_data_def Let_def)
qed

theorem missing_values_counts_null_cells_witness:
  "data (loaded sample_df) = Some sample_df \<and> wf_dataframe sample_df
   \<and> (\<exists>s' bs. analyze_data (loaded sample_df) = (Inr True, s')
           \<and> ar_basic_stats (analysis_results s') = Some bs
           \<and> missing_values bs = 2)"
proof -
  have h1: "data (loaded sample_df) = Some sample_df"
    by (simp add: loaded_def init_def)
  have h2: "wf_dataframe sample_df"
    by code_simp
  have r: "sum_list (map (\<lambda>row. length (filter (\<lambda>x. x = None) row)) (rows sample_df)) = 2"
    by code_simp
  from missing_values_counts_null_cells [OF h1 h2]
  have "\<exists>s' bs. analyze_data (loaded sample_df) = (Inr True, s')
           \<and> ar_basic_stats (analysis_results s') = Some bs
           \<and> missing_values bs = 2"
    by (simp only: r)
  with h1 h2 show ?thesis by blast
qed

text \<open>C2, as the claim states it, fails: it promises the overview dashboard for every
  loaded table, but no drawing call of \<open>generate_charts\<close> is guarded. On the loaded
  empty table the table panel raises, \<open>generate_charts\<close> ends with the exception, and
  no list and no chart file is produced.\<close>

theorem overview_not_produced_on_empty_table:
  "data (loaded empty_df) = Some empty_df
   \<and> fst (generate_charts matplotlib_env (loaded empty_df)) = Inl RenderError
   \<and> \<not> path_exists (snd (generate_charts matplotlib_env (loaded empty_df)))
         ''temp_charts/overview_dashboard.png''"
proof -
  have d: "data (loaded empty_df) = Some empty_df"
    by (simp add: loaded_def init_def)
  have "\<not> draw matplotlib_env (Table [] [])"
    by (simp add: matplotlib_env_def matplotlib_draw_def)
  then have n: "\<not> list_all (draw matplotlib_env) (overview_calls matplotlib_env empty_df)"
    using empty_df_table [of matplotlib_env] by (auto simp: list_all_iff)
  then have g: "generate_charts matplotlib_env (loaded empty_df) = (Inl RenderError, loaded empty_df)"
    using d by (simp add: generate_charts_def render_figure_def matplotlib_env_def
        matplotlib_draw_def)
  have "\<not> path_exists (loaded empty_df) ''temp_charts/overview_dashboard.png''"
    by (simp add: path_exists_def loaded_def init_def)
  with d g show ?thesis by simp
qed

text \<open>C2, amended. For every loaded table on which every drawing call of
  \<open>generate_charts\<close> returns, the list of chart files it returns is fixed by the numbers
  of numeric and of object columns: the overview dashboard always, the correlation matrix
  exactly when there are at least two numeric columns, the categorical analysis exactly when
  there is at least one object column (so the overview alone when there are none of
  either). Whatever the drawing calls do, \<open>generate_charts\<close> never returns another
  list.\<close>

theorem chart_list_determined_by_column_counts:
  assumes "data s = Some df"
  shows "(list_all (draw env) (drawing_calls env df) \<longrightarrow>
            fst (generate_charts env s) =
              Inr ([charts_path @ ''overview_dashboard.png'']
                 @ (if 2 \<le> length (select_number df)
                    then [charts_path @ ''correlation_matrix.png''] else [])
                 @ (if 1 \<le> length (select_object df)
                    then [charts_path @ ''categorical_analysis.png''] else [])))
       \<and> (\<forall>chart_files. fst (generate_charts env s) = Inr chart_files \<longrightarrow>
            chart_files =
              [charts_path @ ''overview_dashboard.png'']
              @ (if 2 \<le> length (select_number df)
                 then [charts_path @ ''correlation_matrix.png''] else [])
              @ (if 1 \<le> length (select_object df)
                 then [charts_path @ ''categorical_analysis.png''] else []))"
proof (intro conjI impI allI)
  assume "list_all (draw env) (drawing_calls env df)"
  from generate_charts_succeeds [OF assms this]
  show "fst (generate_charts env s) =
      Inr ([charts_path @ ''overview_dashboard.png'']
         @ (if 2 \<le> length (select_number df)
            then [charts_path @ ''correlation_matrix.png''] else [])
         @ (if 1 \<le> length (select_object df)
            then [charts_path @ ''categorical_analysis.png''] else []))"
    by (auto simp: Suc_le_eq)
next
  fix chart_files
  assume "fst (generate_charts env s) = Inr chart_files"
  then obtain s1 where "generate_charts env s = (Inr chart_files, s1)"
    by (cases "generate_charts env s") simp
  from generate_charts_returns(1) [OF assms this]
  show "chart_files =
      [charts_path @ ''overview_dashboard.png'']
      @ (if 2 \<le> length (select_number df)
         then [charts_path @ ''correlation_matrix.png''] else [])
      @ (if 1 \<le> length (select_object df)
         then [charts_path @ ''categorical_analysis.png''] else [])"
    by (auto simp: Suc_le_eq)
qed

theorem chart_list_determined_by_column_counts_witness:
  "data analysed = Some sample_df
   \<and> list_all (draw sample_env) (drawing_calls sample_env sample_df)
   \<and> length (select_number sample_df) = 2 \<and> length (select_object sample_df) = 1
   \<and> fst (generate_charts sample_env analysed)
       = Inr [''temp_charts/overview_dashboard.png'', ''temp_charts/correlation_matrix.png'',
              ''temp_charts/categorical_analysis.png'']"
proof -
  have n: "length (select_number sample_df) = 2" and k: "length (select_object sample_df) = 1"
    by code_simp+
  have d: "list_all (draw sample_env) (drawing_calls sample_env sample_df)"
    by (rule sample_draws)
  from chart_list_determined_by_column_counts [OF data_analysed, of sample_env,
      THEN conjunct1, THEN mp, OF d]
  have "fst (generate_charts sample_env analysed)
       = Inr [''temp_charts/overview_dashboard.png'', ''temp_charts/correlation_matrix.png'',
              ''temp_charts/categorical_analysis.png'']"
    by (simp add: n k charts_path_def)
  with data_analysed d n k show ?thesis
    by blast
qed

text \<open>C3. For every analysis result and every list of chart files that exist, the document
  \<open>generate_pdf_report\<close> hands to the writer has
  \<open>2 + max(0, number of charts - 1) + (1 if a numeric summary is present)\<close> pages.\<close>

theorem report_page_count:
  assumes "\<forall>chart_path \<in> set chart_files. path_exists s chart_path"
  shows "length (pages (build_pdf env report_title chart_files s))
     = 2 + (length chart_files - 1)
       + (if ar_numeric_summary (analysis_results s) = None then 0 else 1)"
proof -
  have "filter (path_exists s) (drop 1 chart_files) = drop 1 chart_files"
    using assms by (cases chart_files) simp_all
  then show ?thesis
    by (simp add: build_pdf_length)
qed

theorem report_page_count_witness:
  "list_all (path_exists rendered) sample_charts
   \<and> ar_numeric_summary (analysis_results rendered) \<noteq> None
   \<and> length (pages (build_pdf sample_env ''Data Analysis Report'' sample_charts rendered)) = 5"
proof -
  have h: "\<forall>chart_path \<in> set sample_charts. path_exists rendered chart_path"
    using rendered_exists by (simp add: list_all_iff)
  have ns: "ar_numeric_summary (analysis_results rendered) \<noteq> None"
    by (rule numeric_summary_rendered)
  from report_page_count [OF h, of sample_env "''Data Analysis Report''"]
  have "length (pages (build_pdf sample_env ''Data Analysis Report'' sample_charts rendered)) = 5"
    using ns by (simp add: sample_charts_def)
  with rendered_exists ns show ?thesis by simp
qed

text \<open>C4, as the claim states it, fails: it speaks of every non-numeric column, but
  \<open>analyze_data\<close> summarises the columns of dtype object only
  (\<open>select_dtypes(include=['object'])\<close>). A table whose only column is boolean is
  analysed without any categorical summary.\<close>

theorem bool_column_gets_no_categorical_summary:
  "data (loaded flags_df) = Some flags_df \<and> wf_dataframe flags_df
   \<and> map col_dtype (df_columns flags_df) = [Bool] \<and> \<not> is_number Bool
   \<and> fst (analyze_data (loaded flags_df)) = Inr True
   \<and> ar_categorical_summary (analysis_results (snd (analyze_data (loaded flags_df)))) = None"
proof -
  have a: "data (loaded flags_df) = Some flags_df"
    by (simp add: loaded_def init_def)
  have b: "wf_dataframe flags_df"
    by code_simp
  have c: "map col_dtype (df_columns flags_df) = [Bool]"
    by (simp add: flags_df_def)
  have d: "\<not> is_number Bool"
    by (simp add: is_number_def)
  have e: "fst (analyze_data (loaded flags_df)) = Inr True"
    by (simp add: analyze_data_def loaded_def init_def Let_def)
  have "select_object flags_df = []" and "select_number flags_df = []"
    by (simp_all add: select_object_def select_number_def flags_df_def is_number_def)
  then have f: "ar_categorical_summary (analysis_results (snd (analyze_data (loaded flags_df))))
      = None"
    by (simp add: analyze_data_def loaded_def init_def Let_def)
  from a b c d e f show ?thesis by blast
qed

text \<open>C4, amended. For every loaded table and every column of dtype object (the columns
  \<open>analyze_data\<close> selects as categorical), the categorical summary has an entry for the
  column whose \<open>top_values\<close> has \<open>min(5, unique_values)\<close> entries with distinct
  keys in descending order of count, where \<open>unique_values\<close> is the number of distinct
  non-null values and every count is the number of occurrences of a non-null value.\<close>

theorem top_values_length_and_order:
  assumes "data s = Some df" and "wf_dataframe df"
    and "c \<in> set (df_columns df)" and "col_dtype c = Object"
  shows "\<exists>cs e. ar_categorical_summary (analysis_results (snd (analyze_data s))) = Some cs
           \<and> cs (col_name c) = Some e
           \<and> unique_values e = card {v. Some v \<in> set (col_cells c)}
           \<and> length (top_values e) = min 5 (unique_values e)
           \<and> sorted_wrt (\<lambda>p q. snd p \<ge> snd q) (top_values e)
           \<and> distinct (map fst (top_values e))
           \<and> (\<forall>p \<in> set (top_values e).
                 snd p = count_list (col_cells c) (Some (fst p)) \<and> 0 < snd p)"
proof -
  let ?cat = "select_object df"
  let ?cs = "foldl (\<lambda>m col. m(col_name col \<mapsto> categorical_entry_of col)) Map.empty ?cat"
  let ?e = "categorical_entry_of c"
  have mem: "c \<in> set ?cat"
    using assms(3,4) by (simp add: select_object_def)
  have "distinct (map col_name ?cat)"
    using assms(2) by (simp add: wf_dataframe_def select_object_def distinct_map_filter)
  then have look: "?cs (col_name c) = Some ?e"
    using mem by (rule foldl_upd_distinct)
  have summary: "ar_categorical_summary (analysis_results (snd (analyze_data s))) = Some ?cs"
    using assms(1) mem by (auto simp: analyze_data_def Let_def)
  have uniq: "unique_values ?e = card {v. Some v \<in> set (col_cells c)}"
    by (simp add: categorical_entry_of_def nunique_def length_unique set_dropna)
  have len: "length (top_values ?e) = min 5 (unique_values ?e)"
    by (simp add: categorical_entry_of_def head_def value_counts_def length_value_counts_of
        nunique_def length_unique min.commute)
  have srt: "sorted_wrt (\<lambda>p q. snd p \<ge> snd q) (top_values ?e)"
    by (simp add: categorical_entry_of_def head_def value_counts_def sorted_value_counts_of)
  have dist: "distinct (map fst (top_values ?e))"
    by (simp add: categorical_entry_of_def head_def value_counts_def distinct_take
        distinct_value_counts_of flip: take_map)
  have cnt: "\<forall>p \<in> set (top_values ?e).
               snd p = count_list (col_cells c) (Some (fst p)) \<and> 0 < snd p"
  proof -
    have "set (top_values ?e) \<subseteq> set (value_counts c)"
      by (simp add: categorical_entry_of_def head_def set_take_subset)
    moreover have "\<forall>p \<in> set (value_counts c).
        snd p = count_list (col_cells c) (Some (fst p)) \<and> 0 < snd p"
      by (auto simp: value_counts_def set_value_counts_of count_dropna set_dropna
          count_list_pos)
    ultimately show ?thesis by blast
  qed
  show ?thesis
    using summary look uniq len srt dist cnt by blast
qed

theorem top_values_length_and_order_witness:
  "data (loaded survey_df) = Some survey_df \<and> wf_dataframe survey_df
   \<and> hd (df_columns survey_df) \<in> set (df_columns survey_df)
   \<and> col_dtype (hd (df_columns survey_df)) = Object
   \<and> (\<exists>cs e. ar_categorical_summary (analysis_results (snd (analyze_data (loaded survey_df))))
                = Some cs
           \<and> cs ''answer'' = Some e
           \<and> unique_values e = 7
           \<and> top_values e = [(''a'', 3), (''b'', 2), (''c'', 1), (''d'', 1), (''e'', 1)]
           \<and> length (top_values e) = min 5 (unique_values e)
           \<and> sorted_wrt (\<lambda>p q. snd p \<ge> snd q) (top_values e))"
proof -
  have h1: "data (loaded survey_df) = Some survey_df"
    by (simp add: loaded_def init_def)
  have h2: "wf_dataframe survey_df"
    by code_simp
  have h3: "hd (df_columns survey_df) \<in> set (df_columns survey_df)"
    by (simp add: survey_df_def)
  have h4: "col_dtype (hd (df_columns survey_df)) = Object"
    by (simp add: survey_df_def)
  have nm: "col_name (hd (df_columns survey_df)) = ''answer''"
    by (simp add: survey_df_def)
  have tv: "top_values (categorical_entry_of (hd (df_columns survey_df)))
      = [(''a'', 3), (''b'', 2), (''c'', 1), (''d'', 1), (''e'', 1)]"
    by code_simp
  have uv: "unique_values (categorical_entry_of (hd (df_columns survey_df))) = 7"
    by code_simp
  from top_values_length_and_order [OF h1 h2 h3 h4]
  obtain cs e where
    e: "ar_categorical_summary (analysis_results (snd (analyze_data (loaded survey_df)))) = Some cs"
      "cs ''answer'' = Some e"
      "length (top_values e) = min 5 (unique_values e)"
      "sorted_wrt (\<lambda>p q. snd p \<ge> snd q) (top_values e)"
    by (auto simp: nm)
  have "cs ''answer'' = Some (categorical_entry_of (hd (df_columns survey_df)))"
    using e(1) by (auto simp: analyze_data_def loaded_def init_def Let_def select_object_def
        select_number_def is_number_def survey_df_def)
  then have "top_values e = [(''a'', 3), (''b'', 2), (''c'', 1), (''d'', 1), (''e'', 1)]"
    and "unique_values e = 7"
    using e(2) tv uv by simp_all
  with e h1 h2 h3 h4 show ?thesis by blast
qed

text \<open>C5. On an empty table (no rows, three declared object columns) \<open>analyze_data\<close>
  succeeds with \<open>total_rows = 0\<close>, but the report is not produced: \<open>generate_charts\<close>
  hands \<open>axes.table\<close> the values of an empty \<open>pd.DataFrame()\<close>, matplotlib raises on a
  table without rows, nothing catches it, and \<open>generate_pdf_report\<close> ends with that
  exception before any page is laid out.\<close>

theorem empty_dataset_report_raises:
  "fst (analyze_data (loaded empty_df)) = Inr True
   \<and> map_option total_rows
        (ar_basic_stats (analysis_results (snd (analyze_data (loaded empty_df))))) = Some 0
   \<and> Table [] [] \<in> set (drawing_calls matplotlib_env empty_df)
   \<and> fst (generate_pdf_report matplotlib_env ''automated_report.pdf'' ''Data Analysis Report''
          (snd (analyze_data (loaded empty_df)))) = Inl RenderError"
proof -
  have a: "fst (analyze_data (loaded empty_df)) = Inr True"
    by (simp add: analyze_data_def loaded_def init_def Let_def)
  have b: "map_option total_rows
        (ar_basic_stats (analysis_results (snd (analyze_data (loaded empty_df))))) = Some 0"
    by (simp add: analyze_data_def loaded_def init_def Let_def empty_df_def)
  have c: "Table [] [] \<in> set (drawing_calls matplotlib_env empty_df)"
    using empty_df_table [of matplotlib_env] by (simp add: drawing_calls_def)
  have "\<not> draw matplotlib_env (Table [] [])"
    by (simp add: matplotlib_env_def matplotlib_draw_def)
  then have "\<not> list_all (draw matplotlib_env) (overview_calls matplotlib_env empty_df)"
    using empty_df_table [of matplotlib_env] by (auto simp: list_all_iff)
  then have "fst (generate_charts matplotlib_env (snd (analyze_data (loaded empty_df))))
      = Inl RenderError"
    using data_analysed_empty by (rule generate_charts_raises [rotated])
  then have d: "fst (generate_pdf_report matplotlib_env ''automated_report.pdf''
      ''Data Analysis Report'' (snd (analyze_data (loaded empty_df)))) = Inl RenderError"
    by (rule generate_pdf_report_render_fails)
  from a b c d show ?thesis by blast
qed

text \<open>C6, as the claim states it, fails: there is no \<open>try ... finally\<close> around
  \<open>pdf.output\<close>. When the writer raises, \<open>generate_pdf_report\<close> ends with that exception
  and the chart file is still there.\<close>

theorem chart_files_left_when_write_fails:
  "fst (generate_pdf_report failing_write_env ''automated_report.pdf'' ''Data Analysis Report''
          analysed) = Inl WriteError
   \<and> path_exists
        (snd (generate_pdf_report failing_write_env ''automated_report.pdf''
                ''Data Analysis Report'' analysed))
        ''temp_charts/overview_dashboard.png''"
proof -
  have "list_all (draw failing_write_env) (drawing_calls failing_write_env sample_df)"
    by (simp add: failing_write_env_def sample_env_def list_all_iff)
  from generate_charts_succeeds [OF data_analysed this]
  obtain s1 where g: "generate_charts failing_write_env analysed = (Inr sample_charts, s1)"
    by (auto simp: len_num len_obj sample_charts_def charts_path_def)
  have "\<not> output_ok failing_write_env ''automated_report.pdf''"
    by (simp add: failing_write_env_def)
  from generate_pdf_report_write_fails [OF g this]
  have r: "generate_pdf_report failing_write_env ''automated_report.pdf''
      ''Data Analysis Report'' analysed = (Inl WriteError, s1)" .
  have "path_exists s1 ''temp_charts/overview_dashboard.png''"
    using generate_charts_files_exist [OF g] by (simp add: sample_charts_def)
  with r show ?thesis by simp
qed

text \<open>C6, amended. When the document is written, every chart file of the run is removed
  before \<open>generate_pdf_report\<close> returns. When writing raises, the exception goes to the
  caller and the chart files stay.\<close>

theorem chart_files_removed_after_write:
  assumes "generate_charts env s = (Inr chart_files, s1)"
  shows "(output_ok env output_path \<longrightarrow>
            (\<exists>s2. generate_pdf_report env output_path report_title s = (Inr output_path, s2)
               \<and> list_all (\<lambda>path. \<not> path_exists s2 path) chart_files))
       \<and> (\<not> output_ok env output_path \<longrightarrow>
            generate_pdf_report env output_path report_title s = (Inl WriteError, s1)
            \<and> list_all (path_exists s1) chart_files)"
proof (intro conjI impI)
  assume "output_ok env output_path"
  from generate_pdf_report_written [OF assms this, of report_title]
  show "\<exists>s2. generate_pdf_report env output_path report_title s = (Inr output_path, s2)
               \<and> list_all (\<lambda>path. \<not> path_exists s2 path) chart_files"
    using cleanup_removes by blast
next
  assume "\<not> output_ok env output_path"
  from generate_pdf_report_write_fails [OF assms this]
  show "generate_pdf_report env output_path report_title s = (Inl WriteError, s1)" .
next
  show "list_all (path_exists s1) chart_files"
    using assms by (rule generate_charts_files_exist)
qed

theorem chart_files_removed_after_write_witness:
  "fst (generate_charts sample_env analysed) = Inr sample_charts
   \<and> output_ok sample_env ''automated_report.pdf''
   \<and> (\<exists>s2. generate_pdf_report sample_env ''automated_report.pdf'' ''Data Analysis Report''
              analysed = (Inr ''automated_report.pdf'', s2)
          \<and> list_all (\<lambda>path. \<not> path_exists s2 path) sample_charts)
   \<and> fst (generate_charts failing_write_env analysed) = Inr sample_charts
   \<and> \<not> output_ok failing_write_env ''automated_report.pdf''
   \<and> fst (generate_pdf_report failing_write_env ''automated_report.pdf''
            ''Data Analysis Report'' analysed) = Inl WriteError"
proof -
  obtain s1 where g1: "generate_charts sample_env analysed = (Inr sample_charts, s1)"
    using generate_charts_sample by (cases "generate_charts sample_env analysed") simp
  have o1: "output_ok sample_env ''automated_report.pdf''"
    by (simp add: sample_env_def)
  from chart_files_removed_after_write [OF g1, of "''automated_report.pdf''"
      "''Data Analysis Report''", THEN conjunct1, THEN mp, OF o1]
  have a: "\<exists>s2. generate_pdf_report sample_env ''automated_report.pdf'' ''Data Analysis Report''
              analysed = (Inr ''automated_report.pdf'', s2)
          \<and> list_all (\<lambda>path. \<not> path_exists s2 path) sample_charts" .
  have "list_all (draw failing_write_env) (drawing_calls failing_write_env sample_df)"
    by (simp add: failing_write_env_def sample_env_def list_all_iff)
  from generate_charts_succeeds [OF data_analysed this]
  obtain s3 where g2: "generate_charts failing_write_env analysed = (Inr sample_charts, s3)"
    by (auto simp: len_num len_obj sample_charts_def charts_path_def)
  have o2: "\<not> output_ok failing_write_env ''automated_report.pdf''"
    by (simp add: failing_write_env_def)
  from chart_files_removed_after_write [OF g2, of "''automated_report.pdf''"
      "''Data Analysis Report''", THEN conjunct2, THEN mp, OF o2]
  have b: "fst (generate_pdf_report failing_write_env ''automated_report.pdf''
            ''Data Analysis Report'' analysed) = Inl WriteError"
    by simp
  from g1 g2 have "fst (generate_charts sample_env analysed) = Inr sample_charts"
    and "fst (generate_charts failing_write_env analysed) = Inr sample_charts"
    by simp_all
  with o1 a o2 b show ?thesis by blast
qed

text \<open>C7, as the claim states it, fails: no drawing call of \<open>generate_charts\<close> is
  guarded. When the pie chart of the overview raises, \<open>generate_charts\<close> ends with the
  exception: there is no placeholder, no chart file and no list of charts.\<close>

theorem panel_failure_aborts_generate_charts:
  "fst (generate_charts failing_pie_env analysed) = Inl RenderError
   \<and> \<not> path_exists (snd (generate_charts failing_pie_env analysed))
         ''temp_charts/overview_dashboard.png''"
proof -
  have "\<not> list_all (draw failing_pie_env) (overview_calls failing_pie_env sample_df)"
    by (simp add: failing_pie_env_def overview_calls_def)
  then have "generate_charts failing_pie_env analysed = (Inl RenderError, analysed)"
    using data_analysed by (simp add: generate_charts_def render_figure_def failing_pie_env_def)
  moreover have "\<not> path_exists analysed ''temp_charts/overview_dashboard.png''"
    by (simp add: path_exists_def analysed_def analyze_data_def loaded_def init_def Let_def)
  ultimately show ?thesis by simp
qed

text \<open>C7, amended. The one guarded step is embedding a chart image in the document: when
  \<open>pdf.image\<close> raises, the line \<open>Chart could not be loaded: <path>\<close> takes the place of
  the image under the chart's heading, and the loop goes on with the remaining charts (each
  existing chart gets its heading and its image or that line; the first shares the
  data-overview page). A drawing call that raises inside \<open>generate_charts\<close> is not caught:
  it ends \<open>generate_charts\<close> with the exception.\<close>

theorem image_failure_replaced_render_failure_propagates:
  "(\<exists>T D S. pages (build_pdf env report_title chart_files s)
       = [T, D @ concat (map (\<lambda>c. [Cell 10 (chart_title c),
                                     if image_ok env c then Image c
                                     else Cell 10 (''Chart could not be loaded: '' @ c)])
                          (filter (path_exists s) (take 1 chart_files)))]
         @ map (\<lambda>c. [Cell 10 (chart_title c),
                      if image_ok env c then Image c
                      else Cell 10 (''Chart could not be loaded: '' @ c)])
             (filter (path_exists s) (drop 1 chart_files))
         @ (case ar_numeric_summary (analysis_results s) of
              None \<Rightarrow> [] | Some summary_df \<Rightarrow> [S]))
   \<and> (\<forall>df. data s = Some df \<and> \<not> list_all (draw env) (drawing_calls env df) \<longrightarrow>
          fst (generate_charts env s) = Inl RenderError)"
proof (intro conjI allI impI)
  from build_pdf_pages [OF refl refl, of env report_title chart_files s]
  obtain T S where "pages (build_pdf env report_title chart_files s)
     = [Cell 30 report_title # T,
        [Cell 10 ''Data Overview'',
         Cell 8 (''Total Rows: '' @ get_or_na total_rows (ar_basic_stats (analysis_results s))),
         Cell 8 (''Total Columns: ''
                   @ get_or_na total_columns (ar_basic_stats (analysis_results s))),
         Cell 8 (''Missing Values: ''
                   @ get_or_na missing_values (ar_basic_stats (analysis_results s)))]
        @ concat (map (\<lambda>c. [Cell 10 (chart_title c),
                             if image_ok env c then Image c
                             else Cell 10 (''Chart could not be loaded: '' @ c)])
                   (filter (path_exists s) (take 1 chart_files)))]
       @ map (\<lambda>c. [Cell 10 (chart_title c),
                    if image_ok env c then Image c
                    else Cell 10 (''Chart could not be loaded: '' @ c)])
           (filter (path_exists s) (drop 1 chart_files))
       @ (case ar_numeric_summary (analysis_results s) of
            None \<Rightarrow> [] | Some summary_df \<Rightarrow> [Cell 10 ''Statistical Summary'' # S])"
    by blast
  then show "\<exists>T D S. pages (build_pdf env report_title chart_files s)
       = [T, D @ concat (map (\<lambda>c. [Cell 10 (chart_title c),
                                     if image_ok env c then Image c
                                     else Cell 10 (''Chart could not be loaded: '' @ c)])
                          (filter (path_exists s) (take 1 chart_files)))]
         @ map (\<lambda>c. [Cell 10 (chart_title c),
                      if image_ok env c then Image c
                      else Cell 10 (''Chart could not be loaded: '' @ c)])
             (filter (path_exists s) (drop 1 chart_files))
         @ (case ar_numeric_summary (analysis_results s) of
              None \<Rightarrow> [] | Some summary_df \<Rightarrow> [S])"
    by (intro exI [of _ "Cell 30 report_title # T"] exI [of _ "Cell 10 ''Statistical Summary'' # S"]
        exI [of _ "[Cell 10 ''Data Overview'',
         Cell 8 (''Total Rows: '' @ get_or_na total_rows (ar_basic_stats (analysis_results s))),
         Cell 8 (''Total Columns: ''
                   @ get_or_na total_columns (ar_basic_stats (analysis_results s))),
         Cell 8 (''Missing Values: ''
                   @ get_or_na missing_values (ar_basic_stats (analysis_results s)))]"])
      (simp split: option.split)
next
  fix df
  assume "data s = Some df \<and> \<not> list_all (draw env) (drawing_calls env df)"
  then show "fst (generate_charts env s) = Inl RenderError"
    using generate_charts_fails by blast
qed

theorem image_failure_replaced_render_failure_propagates_witness:
  "(\<exists>T D S. pages (build_pdf failing_image_env ''Data Analysis Report'' sample_charts rendered)
       = [T, D @ [Cell 10 ''Overview Dashboard'', Image ''temp_charts/overview_dashboard.png'']]
         @ [[Cell 10 ''Correlation Matrix'',
             Cell 10 ''Chart could not be loaded: temp_charts/correlation_matrix.png''],
            [Cell 10 ''Categorical Analysis'', Image ''temp_charts/categorical_analysis.png'']]
         @ [S])
   \<and> data analysed = Some sample_df
   \<and> \<not> list_all (draw failing_pie_env) (drawing_calls failing_pie_env sample_df)
   \<and> fst (generate_charts failing_pie_env analysed) = Inl RenderError"
proof -
  have t1: "chart_title ''temp_charts/overview_dashboard.png'' = ''Overview Dashboard''"
    and t2: "chart_title ''temp_charts/correlation_matrix.png'' = ''Correlation Matrix''"
    and t3: "chart_title ''temp_charts/categorical_analysis.png'' = ''Categorical Analysis''"
    by code_simp+
  have ex: "path_exists rendered ''temp_charts/overview_dashboard.png''"
    "path_exists rendered ''temp_charts/correlation_matrix.png''"
    "path_exists rendered ''temp_charts/categorical_analysis.png''"
    using rendered_exists by (simp_all add: sample_charts_def)
  obtain summary_df where ns: "ar_numeric_summary (analysis_results rendered) = Some summary_df"
    using numeric_summary_rendered by blast
  note both = image_failure_replaced_render_failure_propagates
    [of failing_image_env "''Data Analysis Report''" sample_charts rendered]
  from both [THEN conjunct1]
  have a: "\<exists>T D S. pages (build_pdf failing_image_env ''Data Analysis Report'' sample_charts rendered)
       = [T, D @ [Cell 10 ''Overview Dashboard'', Image ''temp_charts/overview_dashboard.png'']]
         @ [[Cell 10 ''Correlation Matrix'',
             Cell 10 ''Chart could not be loaded: temp_charts/correlation_matrix.png''],
            [Cell 10 ''Categorical Analysis'', Image ''temp_charts/categorical_analysis.png'']]
         @ [S]"
    by (simp add: sample_charts_def ex ns t1 t2 t3 failing_image_env_def)
  have c: "\<not> list_all (draw failing_pie_env) (drawing_calls failing_pie_env sample_df)"
    by (simp add: failing_pie_env_def drawing_calls_def overview_calls_def)
  from image_failure_replaced_render_failure_propagates
    [of failing_pie_env "''Data Analysis Report''" sample_charts analysed, THEN conjunct2]
    data_analysed c
  have d: "fst (generate_charts failing_pie_env analysed) = Inl RenderError"
    by blast
  from a data_analysed c d show ?thesis by blast
qed

text \<open>C8 is about the entries of \<open>self.data[numeric_columns].corr()\<close>: floating-point
  numbers computed inside pandas. The model keeps the labels of that matrix only, so the
  symmetry and the unit diagonal of its entries are not stated here.\<close>

text \<open>C9. For every file path whose extension (the text after the last dot, in lower
  case) is none of csv, xlsx, xls and json, \<open>load_data\<close> with the format \<open>'auto'\<close>
  raises the unsupported-type \<open>ValueError\<close> inside its \<open>try\<close>, prints the error, returns
  \<open>False\<close> and leaves the generator without a table.\<close>

theorem unrecognized_extension_fails:
  assumes "lower (last (split (CHR ''.'') file_path)) \<notin> {''csv'', ''xlsx'', ''xls'', ''json''}"
    and "data s = None"
  shows "read_table env file_path (resolve_type file_path ''auto'')
           = Inl (ValueError (''Unsupported file type: '' @ lower (last (split (CHR ''.'') file_path))))
       \<and> fst (load_data env file_path ''auto'' s) = Inr False
       \<and> data (snd (load_data env file_path ''auto'' s)) = None
       \<and> stdout (snd (load_data env file_path ''auto'' s))
           = stdout s @ [''Error loading data: Unsupported file type: ''
                          @ lower (last (split (CHR ''.'') file_path))]"
  using assms by (simp add: load_data_def resolve_type_def read_table_def print_def)

theorem unrecognized_extension_fails_witness:
  "lower (last (split (CHR ''.'') ''notes.TXT'')) \<notin> {''csv'', ''xlsx'', ''xls'', ''json''}
   \<and> data (init Map.empty :: string state) = None
   \<and> fst (load_data sample_env ''notes.TXT'' ''auto'' (init Map.empty)) = Inr False
   \<and> data (snd (load_data sample_env ''notes.TXT'' ''auto'' (init Map.empty))) = None
   \<and> stdout (snd (load_data sample_env ''notes.TXT'' ''auto'' (init Map.empty)))
       = [''Error loading data: Unsupported file type: txt'']"
proof -
  have ext: "lower (last (split (CHR ''.'') ''notes.TXT'')) = ''txt''"
    by code_simp
  have h1: "lower (last (split (CHR ''.'') ''notes.TXT'')) \<notin> {''csv'', ''xlsx'', ''xls'', ''json''}"
    unfolding ext by simp
  have h2: "data (init Map.empty :: string state) = None"
    by (simp add: init_def)
  from unrecognized_extension_fails [OF h1 h2, of sample_env, unfolded ext]
  have "fst (load_data sample_env ''notes.TXT'' ''auto'' (init Map.empty)) = Inr False
   \<and> data (snd (load_data sample_env ''notes.TXT'' ''auto'' (init Map.empty))) = None
   \<and> stdout (snd (load_data sample_env ''notes.TXT'' ''auto'' (init Map.empty)))
       = [''Error loading data: Unsupported file type: txt'']"
    by (simp add: init_def)
  with h1 h2 show ?thesis by blast
qed

text \<open>C10. \<open>load_data\<close> never raises, and whenever reading fails (an unsupported type, or
  any exception of a reader) it returns \<open>False\<close> and leaves \<open>self.data\<close> and the analysis
  results as they were; it returns \<open>True\<close> only with the table a reader returned.\<close>

theorem load_data_total_and_atomic:
  "(\<exists>b. fst (load_data env file_path file_type s) = Inr b)
   \<and> (\<forall>e. read_table env file_path (resolve_type file_path file_type) = Inl e \<longrightarrow>
         fst (load_data env file_path file_type s) = Inr False
         \<and> data (snd (load_data env file_path file_type s)) = data s
         \<and> analysis_results (snd (load_data env file_path file_type s)) = analysis_results s
         \<and> files (snd (load_data env file_path file_type s)) = files s)
   \<and> (\<forall>df. read_table env file_path (resolve_type file_path file_type) = Inr df \<longrightarrow>
         fst (load_data env file_path file_type s) = Inr True
         \<and> data (snd (load_data env file_path file_type s)) = Some df)"
  by (auto simp: load_data_def print_def split: sum.split)

theorem load_data_total_and_atomic_witness:
  "read_table sample_env ''missing.csv'' (resolve_type ''missing.csv'' ''auto'')
     = Inl (ReadError ''No such file or directory'')
   \<and> fst (load_data sample_env ''missing.csv'' ''auto'' analysed) = Inr False
   \<and> data (snd (load_data sample_env ''missing.csv'' ''auto'' analysed)) = Some sample_df
   \<and> read_table sample_env ''sales.csv'' (resolve_type ''sales.csv'' ''auto'') = Inr sample_df
   \<and> fst (load_data sample_env ''sales.csv'' ''auto'' (init Map.empty)) = Inr True
   \<and> data (snd (load_data sample_env ''sales.csv'' ''auto'' (init Map.empty))) = Some sample_df"
proof -
  have ext1: "resolve_type ''missing.csv'' ''auto'' = ''csv''"
    and ext2: "resolve_type ''sales.csv'' ''auto'' = ''csv''"
    by code_simp+
  have r1: "read_table sample_env ''missing.csv'' (resolve_type ''missing.csv'' ''auto'')
     = Inl (ReadError ''No such file or directory'')"
    by (simp add: ext1 read_table_def sample_env_def)
  have r2: "read_table sample_env ''sales.csv'' (resolve_type ''sales.csv'' ''auto'') = Inr sample_df"
    by (simp add: ext2 read_table_def sample_env_def)
  from load_data_total_and_atomic [of sample_env "''missing.csv''" "''auto''" analysed] r1
  have a: "fst (load_data sample_env ''missing.csv'' ''auto'' analysed) = Inr False"
    and b: "data (snd (load_data sample_env ''missing.csv'' ''auto'' analysed)) = data analysed"
    by blast+
  from load_data_total_and_atomic [of sample_env "''sales.csv''" "''auto''" "init Map.empty"] r2
  have c: "fst (load_data sample_env ''sales.csv'' ''auto'' (init Map.empty)) = Inr True"
    and d: "data (snd (load_data sample_env ''sales.csv'' ''auto'' (init Map.empty))) = Some sample_df"
    by blast+
  show ?thesis
    using r1 r2 a b c d data_analysed by simp
qed

end
